theory Spec2Isabelle
  imports Main "HOL-Library.Word"
begin

section \<open>JavaScript values used by the metrics code\<close>

text \<open>
  A JavaScript string is a sequence of UTF-16 code units; \<open>charCodeAt\<close> reads one of
  them as a number in \<open>0..65535\<close>. Numbers are IEEE doubles in the source; every number
  the hash and metrics code computes is an integer of magnitude below \<open>2^53\<close>, where
  double arithmetic is exact, so they are modelled as \<open>int\<close> with the conversions
  \<open>ToInt32\<close> and \<open>ToUint32\<close> of the bitwise operators written out.
\<close>

type_synonym jsstring = "16 word list"

definition charCode :: "16 word \<Rightarrow> int" where
  "charCode c = uint c"

text \<open>A source literal made of Basic Latin characters, as code units.\<close>

definition js :: "string \<Rightarrow> jsstring" where
  "js s = map (\<lambda>c. of_nat (of_char c)) s"

definition ToUint32 :: "int \<Rightarrow> int" where
  "ToUint32 x = x mod 2 ^ 32"

definition ToInt32 :: "int \<Rightarrow> int" where
  "ToInt32 x = (let u = x mod 2 ^ 32 in if u \<ge> 2 ^ 31 then u - 2 ^ 32 else u)"

text \<open>\<open>a << n\<close>, \<open>a >> n\<close> and \<open>a | 0\<close> on numbers: convert to a signed 32-bit integer first.\<close>

definition js_shl :: "int \<Rightarrow> nat \<Rightarrow> int" where
  "js_shl a n = ToInt32 (ToInt32 a * 2 ^ n)"

definition js_sar :: "int \<Rightarrow> nat \<Rightarrow> int" where
  "js_sar a n = ToInt32 a div 2 ^ n"

definition js_or0 :: "int \<Rightarrow> int" where
  "js_or0 a = ToInt32 a"

text \<open>\<open>a % b\<close> truncates towards zero: the result has the sign of the dividend.\<close>

definition js_rem :: "int \<Rightarrow> int \<Rightarrow> int" where
  "js_rem a b = sgn a * (\<bar>a\<bar> mod \<bar>b\<bar>)"

text \<open>\<open>xs[i]\<close> on an array: \<open>undefined\<close> (here \<open>None\<close>) outside the array.\<close>

definition js_index :: "'a list \<Rightarrow> int \<Rightarrow> 'a option" where
  "js_index xs i = (if 0 \<le> i \<and> i < int (length xs) then Some (xs ! nat i) else None)"

section \<open>The two hash functions\<close>

text \<open>
  Interactive app (\<open>hashHandle\<close> of the page component):
  \<^verbatim>\<open>hash = (hash * 31 + handle.charCodeAt(i)) >>> 0\<close> for each code unit, from 0.
\<close>

fun hash_loop_app :: "int \<Rightarrow> jsstring \<Rightarrow> int" where
  "hash_loop_app hash [] = hash"
| "hash_loop_app hash (c # cs) = hash_loop_app (ToUint32 (hash * 31 + charCode c)) cs"

definition hashHandle_app :: "jsstring \<Rightarrow> int" where
  "hashHandle_app handle = hash_loop_app 0 handle"

text \<open>
  Frame responder:
  \<^verbatim>\<open>hash = (hash << 5) - hash + handle.charCodeAt(i); hash |= 0;\<close> for each code
  unit, from 0, and \<^verbatim>\<open>Math.abs(hash)\<close> at the end.
\<close>

fun hash_loop_frame :: "int \<Rightarrow> jsstring \<Rightarrow> int" where
  "hash_loop_frame hash [] = hash"
| "hash_loop_frame hash (c # cs) =
     hash_loop_frame (js_or0 (js_shl hash 5 - hash + charCode c)) cs"

definition hashHandle_frame :: "jsstring \<Rightarrow> int" where
  "hashHandle_frame handle = \<bar>hash_loop_frame 0 handle\<bar>"

section \<open>String operations of the handle normalization\<close>

text \<open>
  \<open>String.prototype.trim\<close> removes the ECMAScript WhiteSpace and LineTerminator code
  points from both ends. All of them are single code units.
\<close>

definition isWhiteSpace :: "16 word \<Rightarrow> bool" where
  "isWhiteSpace c \<longleftrightarrow>
     c = 0x9 \<or> c = 0xA \<or> c = 0xB \<or> c = 0xC \<or> c = 0xD \<or> c = 0x20 \<or> c = 0xA0 \<or>
     c = 0x1680 \<or> (0x2000 \<le> c \<and> c \<le> 0x200A) \<or> c = 0x2028 \<or> c = 0x2029 \<or>
     c = 0x202F \<or> c = 0x205F \<or> c = 0x3000 \<or> c = 0xFEFF"

definition trim :: "jsstring \<Rightarrow> jsstring" where
  "trim s = rev (dropWhile isWhiteSpace (rev (dropWhile isWhiteSpace s)))"

text \<open>\<^verbatim>\<open>s.replace(/^@/, "")\<close>: one \<open>@\<close> (code unit 64) is removed, at the very start only.\<close>

definition replace_leading_at :: "jsstring \<Rightarrow> jsstring" where
  "replace_leading_at s = (case s of [] \<Rightarrow> [] | c # cs \<Rightarrow> if c = 0x40 then cs else s)"

text \<open>\<^verbatim>\<open>s || d\<close> on strings: the empty string is the only falsy one.\<close>

definition or_else :: "jsstring \<Rightarrow> jsstring \<Rightarrow> jsstring" where
  "or_else s d = (if s = [] then d else s)"

text \<open>
  \<open>String.prototype.toLowerCase\<close> follows the Unicode case tables of the runtime, which
  are no part of the repository: the functions below take the lower-casing function as
  the parameter \<open>lc\<close>. On strings of Basic Latin code units it is the function
  \<open>toLowerCase\<close> defined here (\<open>A\<close>..\<open>Z\<close> move to \<open>a\<close>..\<open>z\<close>, every other unit stays),
  which is the instance used on concrete handles.
\<close>

definition lowerUnit :: "16 word \<Rightarrow> 16 word" where
  "lowerUnit c = (if 0x41 \<le> c \<and> c \<le> 0x5A then c + 0x20 else c)"

definition toLowerCase :: "jsstring \<Rightarrow> jsstring" where
  "toLowerCase s = map lowerUnit s"

subsection \<open>\<open>encodeURIComponent\<close>\<close>

datatype js_error = URIError | TypeError

definition uriUnreserved :: "16 word \<Rightarrow> bool" where
  "uriUnreserved c \<longleftrightarrow>
     (0x41 \<le> c \<and> c \<le> 0x5A) \<or> (0x61 \<le> c \<and> c \<le> 0x7A) \<or> (0x30 \<le> c \<and> c \<le> 0x39) \<or>
     c = 0x2D \<or> c = 0x5F \<or> c = 0x2E \<or> c = 0x21 \<or> c = 0x7E \<or> c = 0x2A \<or>
     c = 0x27 \<or> c = 0x28 \<or> c = 0x29"

definition isLeadSurrogate :: "16 word \<Rightarrow> bool" where
  "isLeadSurrogate c \<longleftrightarrow> 0xD800 \<le> c \<and> c \<le> 0xDBFF"

definition isTrailSurrogate :: "16 word \<Rightarrow> bool" where
  "isTrailSurrogate c \<longleftrightarrow> 0xDC00 \<le> c \<and> c \<le> 0xDFFF"

definition codePoint :: "16 word \<Rightarrow> 16 word \<Rightarrow> nat" where
  "codePoint lead trail = (unat lead - 0xD800) * 0x400 + (unat trail - 0xDC00) + 0x10000"

definition utf8 :: "nat \<Rightarrow> nat list" where
  "utf8 cp =
     (if cp < 0x80 then [cp]
      else if cp < 0x800 then [0xC0 + cp div 64, 0x80 + cp mod 64]
      else if cp < 0x10000 then [0xE0 + cp div 4096, 0x80 + cp div 64 mod 64, 0x80 + cp mod 64]
      else [0xF0 + cp div 262144, 0x80 + cp div 4096 mod 64, 0x80 + cp div 64 mod 64,
            0x80 + cp mod 64])"

definition hexDigit :: "nat \<Rightarrow> 16 word" where
  "hexDigit n = (if n < 10 then of_nat (0x30 + n) else of_nat (0x41 + (n - 10)))"

definition percentEncode :: "nat list \<Rightarrow> jsstring" where
  "percentEncode octets = concat (map (\<lambda>b. [0x25, hexDigit (b div 16), hexDigit (b mod 16)]) octets)"

definition prepend :: "jsstring \<Rightarrow> js_error + jsstring \<Rightarrow> js_error + jsstring" where
  "prepend p r = (case r of Inl e \<Rightarrow> Inl e | Inr t \<Rightarrow> Inr (p @ t))"

text \<open>
  Unreserved units are copied; any other code point is written as the percent-escaped
  octets of its UTF-8 form; a surrogate without its partner throws \<open>URIError\<close>.
\<close>

fun encodeURIComponent :: "jsstring \<Rightarrow> js_error + jsstring" where
  "encodeURIComponent [] = Inr []"
| "encodeURIComponent (c # cs) =
     (if uriUnreserved c then prepend [c] (encodeURIComponent cs)
      else if isLeadSurrogate c then
        (case cs of
           [] \<Rightarrow> Inl URIError
         | d # ds \<Rightarrow>
             if isTrailSurrogate d
             then prepend (percentEncode (utf8 (codePoint c d))) (encodeURIComponent ds)
             else Inl URIError)
      else if isTrailSurrogate c then Inl URIError
      else prepend (percentEncode (utf8 (unat c))) (encodeURIComponent cs))"

section \<open>The metrics generator of the interactive app\<close>

datatype plot_armor = Low | Medium | High

record 'p Metrics =
  mainCharacter :: int
  npcEnergy :: int
  plotArmor :: 'p

record EnergyResult = "plot_armor Metrics" +
  caption :: "jsstring option"
  fid :: int
  avatarUrl :: jsstring

definition captions :: "jsstring list" where
  \<open>captions =
     [js ''Plot twist: you were the main character the whole time.'',
      js ''Side quests completed. Main quest energy unlocked.'',
      js ''You give '' @ js ''"I know the author"'' @ js '' energy.'',
      js ''NPCs are just background characters in your highlight reel.'',
      js ''Somewhere, a writer is adding you to season two.'']\<close>

definition maincharacter :: jsstring where
  "maincharacter = js ''maincharacter''"

text \<open>\<^verbatim>\<open>handle.trim().replace(/^@/, "")\<close>, the string the interactive app normalizes to.\<close>

definition normalize_app :: "jsstring \<Rightarrow> jsstring" where
  "normalize_app handle = replace_leading_at (trim handle)"

definition generateMetrics_app :: "(jsstring \<Rightarrow> jsstring) \<Rightarrow> jsstring \<Rightarrow> js_error + EnergyResult" where
  "generateMetrics_app lc handle =
     (let trimmed = replace_leading_at (trim handle);
          base = or_else trimmed maincharacter;
          hash = hashHandle_app (or_else base maincharacter);
          mainCharacter = js_rem hash 51 + 50;
          npcEnergyRaw = 100 - mainCharacter + js_rem (js_sar hash 3) 11 - 5;
          npcEnergy = max 0 (min 100 npcEnergyRaw);
          armorSeed = js_rem (js_sar hash 7) 100;
          plotArmor = (if armorSeed > 70 then High else if armorSeed > 40 then Medium else Low);
          caption = js_index captions (js_rem hash (int (length captions)));
          fid = js_rem hash 900000 + 10000
      in case encodeURIComponent (lc base) of
           Inl e \<Rightarrow> Inl e
         | Inr seed \<Rightarrow>
             Inr \<lparr>mainCharacter = mainCharacter, npcEnergy = npcEnergy, plotArmor = plotArmor,
                  caption = caption, fid = fid,
                  avatarUrl = js ''https://api.dicebear.com/9.x/thumbs/svg?seed='' @ seed\<rparr>)"

section \<open>The metrics generator of the frame responder\<close>

definition plotArmorLevels :: "plot_armor list" where
  "plotArmorLevels = [Low, Medium, High]"

definition anon :: jsstring where
  "anon = js ''anon''"

text \<open>\<^verbatim>\<open>handle.toLowerCase().replace(/^@/, "").trim()\<close>\<close>

definition normalize_frame :: "(jsstring \<Rightarrow> jsstring) \<Rightarrow> jsstring \<Rightarrow> jsstring" where
  "normalize_frame lc handle = trim (replace_leading_at (lc handle))"

definition generateMetrics_frame :: "(jsstring \<Rightarrow> jsstring) \<Rightarrow> jsstring \<Rightarrow> plot_armor option Metrics" where
  "generateMetrics_frame lc handle =
     (let normalized = trim (replace_leading_at (lc handle));
          hash = hashHandle_frame (or_else normalized anon);
          mainCharacter = js_rem hash 51 + 50;
          npcEnergy = 100 - js_rem hash 41;
          plotArmor = js_index plotArmorLevels (js_rem hash (int (length plotArmorLevels)))
      in \<lparr>mainCharacter = mainCharacter, npcEnergy = npcEnergy, plotArmor = plotArmor\<rparr>)"

text \<open>
  The order the specification words the normalization in: trim, strip one leading \<open>@\<close>,
  lower-case. It is compared with the two orders of the code below.
\<close>

definition normalize_spec :: "(jsstring \<Rightarrow> jsstring) \<Rightarrow> jsstring \<Rightarrow> jsstring" where
  "normalize_spec lc handle = lc (replace_leading_at (trim handle))"

definition basicLatin :: "jsstring \<Rightarrow> bool" where
  "basicLatin s = list_all (\<lambda>c. c < 0x80) s"

text \<open>
  The handles on which stripping before trimming (the frame responder) and trimming
  before stripping (the specification, the interactive app) give the same string: no
  whitespace stands in front of a leading \<open>@\<close>, and none right behind a leading \<open>@\<close>
  unless only whitespace follows it.
\<close>

definition cleanLeadingAt :: "jsstring \<Rightarrow> bool" where
  "cleanLeadingAt s \<longleftrightarrow>
     (dropWhile isWhiteSpace s = s \<or>
      replace_leading_at (dropWhile isWhiteSpace s) = dropWhile isWhiteSpace s) \<and>
     (replace_leading_at s = s \<or>
      dropWhile isWhiteSpace (replace_leading_at s) = replace_leading_at s \<or>
      list_all isWhiteSpace (replace_leading_at s))"

section \<open>The frame responder\<close>

subsection \<open>Rendering\<close>

text \<open>A number inside a template literal: the decimal digits of an integer.\<close>

fun digitsOf :: "nat \<Rightarrow> jsstring" where
  "digitsOf n = (if n < 10 then [of_nat (0x30 + n)] else digitsOf (n div 10) @ [of_nat (0x30 + n mod 10)])"

definition numberToString :: "int \<Rightarrow> jsstring" where
  "numberToString i = (if i < 0 then 0x2D # digitsOf (nat (- i)) else digitsOf (nat i))"

fun armorToString :: "plot_armor option \<Rightarrow> jsstring" where
  "armorToString None = js ''undefined''"
| "armorToString (Some Low) = js ''Low''"
| "armorToString (Some Medium) = js ''Medium''"
| "armorToString (Some High) = js ''High''"

text \<open>
  \<open>JSON.stringify\<close> of a string, without the enclosing quotes: the short escapes, and
  \<open>\uXXXX\<close> for the other control characters and for surrogates without partner.
\<close>

definition hexLower :: "nat \<Rightarrow> 16 word" where
  "hexLower n = (if n < 10 then of_nat (0x30 + n) else of_nat (0x61 + (n - 10)))"

definition unicodeEscape :: "16 word \<Rightarrow> jsstring" where
  "unicodeEscape c =
     [0x5C, 0x75, hexLower (unat c div 4096), hexLower (unat c div 256 mod 16),
      hexLower (unat c div 16 mod 16), hexLower (unat c mod 16)]"

definition quoteUnit :: "16 word \<Rightarrow> jsstring" where
  "quoteUnit c =
     (if c = 0x8 then [0x5C, 0x62]
      else if c = 0x9 then [0x5C, 0x74]
      else if c = 0xA then [0x5C, 0x6E]
      else if c = 0xC then [0x5C, 0x66]
      else if c = 0xD then [0x5C, 0x72]
      else if c = 0x22 then [0x5C, 0x22]
      else if c = 0x5C then [0x5C, 0x5C]
      else if c < 0x20 \<or> isLeadSurrogate c \<or> isTrailSurrogate c then unicodeEscape c
      else [c])"

fun quoteJSONString :: "jsstring \<Rightarrow> jsstring" where
  "quoteJSONString [] = []"
| "quoteJSONString (c # cs) =
     (if isLeadSurrogate c then
        (case cs of
           [] \<Rightarrow> quoteUnit c
         | d # ds \<Rightarrow>
             if isTrailSurrogate d then c # d # quoteJSONString ds
             else quoteUnit c @ quoteJSONString cs)
      else quoteUnit c @ quoteJSONString cs)"

text \<open>\<^verbatim>\<open>JSON.stringify({ handle: normalized }).replace(/"/g, "&quot;")\<close>\<close>

definition frameState :: "jsstring \<Rightarrow> jsstring" where
  \<open>frameState normalized =
     concat (map (\<lambda>c. if c = 0x22 then js ''&quot;'' else [c])
       (js ''{"handle":"'' @ quoteJSONString normalized @ js ''"}''))\<close>

record FrameOpts =
  handle :: jsstring
  imageUrl :: jsstring
  appUrl :: jsstring

text \<open>The middle dot of the subtitle is the code unit \<open>0xB7\<close>.\<close>

definition subtitle :: "(jsstring \<Rightarrow> jsstring) \<Rightarrow> jsstring \<Rightarrow> jsstring" where
  "subtitle lc normalized =
     (let m = generateMetrics_frame lc normalized
      in if length normalized > 0
         then js ''@'' @ normalized @ js '': MC '' @ numberToString (mainCharacter m) @
              js '' '' @ [0xB7] @ js '' NPC '' @ numberToString (npcEnergy m) @
              js '' '' @ [0xB7] @ js '' Armor '' @ armorToString (plotArmor m)
         else js ''Drop your handle to scan your Main Character Energy'')"

definition nl :: jsstring where
  "nl = [0xA]"

definition buildFrameHtml :: "(jsstring \<Rightarrow> jsstring) \<Rightarrow> FrameOpts \<Rightarrow> jsstring" where
  \<open>buildFrameHtml lc opts =
     (let normalized = trim (replace_leading_at (lc (handle opts)));
          state = frameState normalized
      in js ''<!doctype html>'' @ nl @
         js ''<html>'' @ nl @
         js ''  <head>'' @ nl @
         js ''    <meta property="og:title" content="Main Character Energy" />'' @ nl @
         js ''    <meta property="og:description" content="'' @ subtitle lc normalized @ js ''" />'' @ nl @
         js ''    <meta property="og:image" content="'' @ imageUrl opts @ js ''" />'' @ nl @
         nl @
         js ''    <meta property="fc:frame" content="vNext" />'' @ nl @
         js ''    <meta property="fc:frame:image" content="'' @ imageUrl opts @ js ''" />'' @ nl @
         js ''    <meta property="fc:frame:button:1" content="Scan again" />'' @ nl @
         js ''    <meta property="fc:frame:button:1:action" content="post" />'' @ nl @
         js ''    <meta property="fc:frame:input:text" content="Enter your Farcaster handle" />'' @ nl @
         js ''    <meta property="fc:frame:state" content="'' @ state @ js ''" />'' @ nl @
         js ''    <meta property="fc:frame:post_url" content="'' @ appUrl opts @ js ''/frame-main-character" />'' @ nl @
         js ''  </head>'' @ nl @
         nl @
         js ''  <body></body>'' @ nl @
         js ''</html>'')\<close>

subsection \<open>Request bodies\<close>

text \<open>
  A parsed JSON value. A number is given by what the handlers read of it: whether it is
  truthy (neither zero nor NaN) and its \<open>toString()\<close> text. An object is its list of
  members in source order; a later member of the same name wins.
\<close>

datatype json =
    JNull
  | JBool bool
  | JNumber bool jsstring
  | JString jsstring
  | JArray "json list"
  | JObject "(jsstring \<times> json) list"

text \<open>Truthiness of a value that may be \<open>undefined\<close> (\<open>None\<close>).\<close>

fun truthy :: "json option \<Rightarrow> bool" where
  "truthy None = False"
| "truthy (Some JNull) = False"
| "truthy (Some (JBool b)) = b"
| "truthy (Some (JNumber t txt)) = t"
| "truthy (Some (JString s)) = (s \<noteq> [])"
| "truthy (Some (JArray xs)) = True"
| "truthy (Some (JObject kvs)) = True"

text \<open>
  \<open>v.name\<close> for a property name that no prototype defines (\<open>untrustedData\<close>,
  \<open>inputText\<close>, \<open>username\<close>): a \<open>TypeError\<close> on \<open>null\<close>, the member of an object,
  \<open>undefined\<close> on everything else.
\<close>

fun js_get :: "json \<Rightarrow> jsstring \<Rightarrow> js_error + json option" where
  "js_get JNull name = Inl TypeError"
| "js_get (JObject kvs) name = Inr (map_of (rev kvs) name)"
| "js_get v name = Inr None"

fun joinComma :: "(js_error + jsstring) list \<Rightarrow> js_error + jsstring" where
  "joinComma [] = Inr []"
| "joinComma [r] = r"
| "joinComma (r # rs) =
     (case r of
        Inl e \<Rightarrow> Inl e
      | Inr t \<Rightarrow> (case joinComma rs of Inl e \<Rightarrow> Inl e | Inr u \<Rightarrow> Inr (t @ 0x2C # u)))"

text \<open>
  \<open>v.toString()\<close> on a truthy value. An object answers \<open>[object Object]\<close>, unless it has
  a member named \<open>toString\<close>, which is no function: a \<open>TypeError\<close>. An array joins the
  strings of its elements, \<open>null\<close> counting as the empty string.
\<close>

fun toStringJ :: "json \<Rightarrow> js_error + jsstring" where
  "toStringJ JNull = Inl TypeError"
| "toStringJ (JBool b) = Inr (if b then js ''true'' else js ''false'')"
| "toStringJ (JNumber t txt) = Inr txt"
| "toStringJ (JString s) = Inr s"
| "toStringJ (JArray xs) =
     joinComma (map (\<lambda>e. if e = JNull then Inr [] else toStringJ e) xs)"
| "toStringJ (JObject kvs) =
     (if map_of kvs (js ''toString'') \<noteq> None then Inl TypeError
      else Inr (js ''[object Object]''))"

subsection \<open>The handler\<close>

text \<open>\<open>req.method\<close> is the field \<open>http_method\<close>.\<close>

record Request =
  http_method :: jsstring
  json_body :: "json option"

record 'b Response =
  status :: nat
  headers :: "(jsstring \<times> jsstring) list"
  body :: 'b

definition corsHeaders :: "(jsstring \<times> jsstring) list" where
  "corsHeaders =
     [(js ''Access-Control-Allow-Origin'', js ''*''),
      (js ''Access-Control-Allow-Headers'',
       js ''authorization, x-client-info, apikey, content-type'')]"

definition htmlResponse :: "jsstring \<Rightarrow> jsstring option Response" where
  "htmlResponse html =
     \<lparr>status = 200,
      headers = corsHeaders @ [(js ''Content-Type'', js ''text/html; charset=utf-8'')],
      body = Some html\<rparr>"

definition internalServerError :: "jsstring option Response" where
  "internalServerError =
     \<lparr>status = 500, headers = corsHeaders, body = Some (js ''Internal Server Error'')\<rparr>"

text \<open>
  \<^verbatim>\<open>(untrustedData.inputText || "").toString()\<close> after
  \<^verbatim>\<open>body.untrustedData || {}\<close>, where \<open>body\<close> is \<open>{}\<close> when \<open>req.json()\<close> rejects
  (\<open>json_body\<close> is \<open>None\<close>). A thrown error is the \<open>Inl\<close> result.
\<close>

definition inputTextOf :: "json option \<Rightarrow> js_error + jsstring" where
  "inputTextOf parsed =
     (let body = (case parsed of None \<Rightarrow> JObject [] | Some v \<Rightarrow> v)
      in case js_get body (js ''untrustedData'') of
           Inl e \<Rightarrow> Inl e
         | Inr u \<Rightarrow>
             (let untrustedData = (if truthy u then the u else JObject [])
              in case js_get untrustedData (js ''inputText'') of
                   Inl e \<Rightarrow> Inl e
                 | Inr v \<Rightarrow> if truthy v then toStringJ (the v) else Inr []))"

definition frame_appUrl :: jsstring where
  "frame_appUrl = js ''https://yatrugjplwgsqnehumcu.functions.supabase.co''"

definition frame_imageUrl :: jsstring where
  "frame_imageUrl = js ''https://lovable.dev/opengraph-image-p98pqg.png''"

definition frame_handler :: "(jsstring \<Rightarrow> jsstring) \<Rightarrow> Request \<Rightarrow> jsstring option Response" where
  "frame_handler lc req =
     (if http_method req = js ''OPTIONS''
      then \<lparr>status = 200, headers = corsHeaders, body = None\<rparr>
      else if http_method req = js ''GET''
      then htmlResponse
             (buildFrameHtml lc \<lparr>handle = [], imageUrl = frame_imageUrl, appUrl = frame_appUrl\<rparr>)
      else if http_method req = js ''POST''
      then (case inputTextOf (json_body req) of
              Inl e \<Rightarrow> internalServerError
            | Inr inputText \<Rightarrow>
                htmlResponse
                  (buildFrameHtml lc
                     \<lparr>handle = inputText, imageUrl = frame_imageUrl, appUrl = frame_appUrl\<rparr>))
      else \<lparr>status = 405, headers = corsHeaders, body = Some (js ''Method not allowed'')\<rparr>)"

section \<open>The profile lookup proxy\<close>

text \<open>
  The body of an error response is \<^verbatim>\<open>JSON.stringify({ error: ... })\<close>; the text is a
  literal of the source or the \<open>message\<close> of the error the handler caught, which the
  runtime words. \<open>NullBody\<close> is the empty body of the preflight answer and
  \<open>UpstreamBody\<close> the serialized profile of a successful lookup.
\<close>

datatype error_text = Literal jsstring | CaughtMessage

datatype proxy_body = NullBody | ErrorBody error_text | UpstreamBody jsstring

definition jsonError :: "nat \<Rightarrow> error_text \<Rightarrow> proxy_body Response" where
  "jsonError st txt =
     \<lparr>status = st,
      headers = corsHeaders @ [(js ''Content-Type'', js ''application/json'')],
      body = ErrorBody txt\<rparr>"

text \<open>
  \<open>env\<close> is \<^verbatim>\<open>Deno.env.get('NEYNAR_API_KEY')\<close>, \<open>None\<close> when the variable is not set.
  What follows the two guards (the request to the upstream directory with the key and
  the user name, and the response built from its answer) needs the network and is the
  parameter \<open>lookup\<close>. The handler does not look at the request method beyond
  \<open>OPTIONS\<close>.
\<close>

definition proxy_handler ::
  "(jsstring \<Rightarrow> json \<Rightarrow> proxy_body Response) \<Rightarrow> jsstring option \<Rightarrow> Request \<Rightarrow> proxy_body Response" where
  "proxy_handler lookup env req =
     (if http_method req = js ''OPTIONS''
      then \<lparr>status = 200, headers = corsHeaders, body = NullBody\<rparr>
      else case json_body req of
             None \<Rightarrow> jsonError 500 CaughtMessage
           | Some parsed \<Rightarrow>
               (case js_get parsed (js ''username'') of
                  Inl e \<Rightarrow> jsonError 500 CaughtMessage
                | Inr username \<Rightarrow>
                    if \<not> truthy username
                    then jsonError 400 (Literal (js ''Username is required''))
                    else (case env of
                            None \<Rightarrow> jsonError 500 (Literal (js ''API key not configured''))
                          | Some neynarApiKey \<Rightarrow>
                              if neynarApiKey = []
                              then jsonError 500 (Literal (js ''API key not configured''))
                              else lookup neynarApiKey (the username))))"

text \<open>
  An upstream directory in which no user matches: the handler answers 404 with
  \<open>User not found\<close>. It stands for \<open>lookup\<close> where a concrete request is evaluated.
\<close>

definition lookup_no_user :: "jsstring \<Rightarrow> json \<Rightarrow> proxy_body Response" where
  "lookup_no_user neynarApiKey username = jsonError 404 (Literal (js ''User not found''))"

section \<open>Arithmetic of the conversions\<close>

lemma js_rem_nonneg: "0 \<le> a \<Longrightarrow> 0 < b \<Longrightarrow> js_rem a b = a mod b"
  by (cases "a = 0") (simp_all add: js_rem_def)

lemma ToInt32_range: "- (2 ^ 31) \<le> ToInt32 x \<and> ToInt32 x < 2 ^ 31"
proof -
  define u where "u = x mod 2 ^ 32"
  have "0 \<le> u" "u < 2 ^ 32" by (simp_all add: u_def)
  then have "- (2 ^ 31) \<le> (if u \<ge> 2 ^ 31 then u - 2 ^ 32 else u) \<and>
      (if u \<ge> 2 ^ 31 then u - 2 ^ 32 else u) < 2 ^ 31"
    by auto
  then show ?thesis unfolding ToInt32_def Let_def u_def .
qed

subsection \<open>Ranges of the two hashes\<close>

lemma hash_loop_frame_range:
  "- (2 ^ 31) \<le> h \<Longrightarrow> h < 2 ^ 31 \<Longrightarrow>
   - (2 ^ 31) \<le> hash_loop_frame h s \<and> hash_loop_frame h s < 2 ^ 31"
proof (induction s arbitrary: h)
  case Nil
  then show ?case by simp
next
  case (Cons c cs)
  have "- (2 ^ 31) \<le> js_or0 (js_shl h 5 - h + charCode c)"
    and "js_or0 (js_shl h 5 - h + charCode c) < 2 ^ 31"
    using ToInt32_range [of "js_shl h 5 - h + charCode c"] by (simp_all add: js_or0_def)
  then show ?case using Cons.IH by simp
qed

lemma hashHandle_frame_range: "0 \<le> hashHandle_frame s \<and> hashHandle_frame s \<le> 2 ^ 31"
  using hash_loop_frame_range [of 0 s] unfolding hashHandle_frame_def by auto

lemma hash_loop_app_range:
  "0 \<le> u \<Longrightarrow> u < 2 ^ 32 \<Longrightarrow> 0 \<le> hash_loop_app u s \<and> hash_loop_app u s < 2 ^ 32"
proof (induction s arbitrary: u)
  case Nil
  then show ?case by simp
next
  case (Cons c cs)
  have "0 \<le> ToUint32 (u * 31 + charCode c)" "ToUint32 (u * 31 + charCode c) < 2 ^ 32"
    by (simp_all add: ToUint32_def)
  then show ?case using Cons.IH by simp
qed

lemma hashHandle_app_range: "0 \<le> hashHandle_app s \<and> hashHandle_app s < 2 ^ 32"
  using hash_loop_app_range [of 0 s] by (simp add: hashHandle_app_def)

lemma generateMetrics_frame_fields:
  "mainCharacter (generateMetrics_frame lc s) =
     hashHandle_frame (or_else (normalize_frame lc s) anon) mod 51 + 50"
  "npcEnergy (generateMetrics_frame lc s) =
     100 - hashHandle_frame (or_else (normalize_frame lc s) anon) mod 41"
  "plotArmor (generateMetrics_frame lc s) =
     Some (plotArmorLevels ! nat (hashHandle_frame (or_else (normalize_frame lc s) anon) mod 3))"
  using hashHandle_frame_range [of "or_else (normalize_frame lc s) anon"]
  by (simp_all add: generateMetrics_frame_def normalize_frame_def Let_def js_rem_nonneg
      js_index_def plotArmorLevels_def)

lemma single_unit_hash: "hashHandle_frame [c] = uint c"
proof -
  have "uint c < 2 ^ 16" using uint_bounded [of c] by simp
  then have "uint c < 2 ^ 31" by simp
  then have "ToInt32 (uint c) = uint c"
    by (simp add: ToInt32_def)
  then show ?thesis
    by (simp add: hashHandle_frame_def js_or0_def js_shl_def charCode_def ToInt32_def)
qed

subsection \<open>The two loops agree modulo \<open>2^32\<close>\<close>

lemma ToInt32_mod: "ToInt32 x mod 2 ^ 32 = x mod 2 ^ 32"
  by (simp add: ToInt32_def Let_def)

lemma ToInt32_cong: "x mod 2 ^ 32 = y mod 2 ^ 32 \<Longrightarrow> ToInt32 x = ToInt32 y"
  by (simp add: ToInt32_def)

lemma frame_step_mod:
  "(js_shl h 5 - h + c) mod 2 ^ 32 = (h * 31 + c) mod 2 ^ 32"
proof -
  have "ToInt32 h * 2 ^ 5 mod 2 ^ 32 = h * 2 ^ 5 mod 2 ^ 32"
    by (rule mod_mult_cong) (rule ToInt32_mod, rule refl)
  then have shl: "js_shl h 5 mod 2 ^ 32 = h * 32 mod 2 ^ 32"
    unfolding js_shl_def by (simp only: ToInt32_mod) simp
  have "(js_shl h 5 - h) mod 2 ^ 32 = (h * 32 - h) mod 2 ^ 32"
    by (rule mod_diff_cong) (rule shl, rule refl)
  then have "(js_shl h 5 - h + c) mod 2 ^ 32 = (h * 32 - h + c) mod 2 ^ 32"
    by (rule mod_add_cong) (rule refl)
  moreover have "h * 32 - h + c = h * 31 + c" by simp
  ultimately show ?thesis by (simp only:)
qed

lemma frame_step_app_step:
  assumes "h mod 2 ^ 32 = u mod 2 ^ 32"
  shows "js_or0 (js_shl h 5 - h + c) mod 2 ^ 32 = ToUint32 (u * 31 + c) mod 2 ^ 32"
proof -
  have "h * 31 mod 2 ^ 32 = u * 31 mod 2 ^ 32"
    by (rule mod_mult_cong) (rule assms, rule refl)
  then have "(h * 31 + c) mod 2 ^ 32 = (u * 31 + c) mod 2 ^ 32"
    by (rule mod_add_cong) (rule refl)
  then show ?thesis
    unfolding js_or0_def ToUint32_def by (simp only: ToInt32_mod frame_step_mod mod_mod_trivial)
qed

lemma hash_loops_agree:
  "h mod 2 ^ 32 = u mod 2 ^ 32 \<Longrightarrow>
   hash_loop_frame h s mod 2 ^ 32 = hash_loop_app u s mod 2 ^ 32"
proof (induction s arbitrary: h u)
  case Nil
  then show ?case by simp
next
  case (Cons c cs)
  show ?case
    using Cons.IH [OF frame_step_app_step [OF Cons.prems]] by simp
qed

lemma hash_loop_frame_int32:
  "ToInt32 h = h \<Longrightarrow> ToInt32 (hash_loop_frame h s) = hash_loop_frame h s"
proof (induction s arbitrary: h)
  case Nil then show ?case by simp
next
  case (Cons c cs)
  have "ToInt32 (js_or0 (js_shl h 5 - h + charCode c)) = js_or0 (js_shl h 5 - h + charCode c)"
    unfolding js_or0_def by (rule ToInt32_cong) (rule ToInt32_mod)
  from Cons.IH [OF this] show ?case by simp
qed

lemma hash_loop_app_uint32:
  "ToUint32 u = u \<Longrightarrow> ToUint32 (hash_loop_app u s) = hash_loop_app u s"
proof (induction s arbitrary: u)
  case Nil then show ?case by simp
next
  case (Cons c cs)
  have "ToUint32 (ToUint32 (u * 31 + charCode c)) = ToUint32 (u * 31 + charCode c)"
    by (simp add: ToUint32_def)
  from Cons.IH [OF this] show ?case by simp
qed

lemma hash_loop_frame_eq:
  "hash_loop_frame 0 s = ToInt32 (hashHandle_app s)"
proof -
  have "hash_loop_frame 0 s mod 2 ^ 32 = hash_loop_app 0 s mod 2 ^ 32"
    by (rule hash_loops_agree) simp
  then have "ToInt32 (hash_loop_frame 0 s) = ToInt32 (hash_loop_app 0 s)"
    by (rule ToInt32_cong)
  moreover have "ToInt32 (hash_loop_frame 0 s) = hash_loop_frame 0 s"
    by (rule hash_loop_frame_int32) (simp add: ToInt32_def)
  ultimately show ?thesis by (simp add: hashHandle_app_def)
qed

section \<open>Trimming, stripping and lower-casing\<close>

lemma isWhiteSpace_unat:
  "isWhiteSpace c \<longleftrightarrow>
     unat c \<in> {0x9, 0xA, 0xB, 0xC, 0xD, 0x20, 0xA0, 0x1680, 0x2028, 0x2029, 0x202F, 0x205F,
       0x3000, 0xFEFF} \<or> (0x2000 \<le> unat c \<and> unat c \<le> 0x200A)"
  by (auto simp add: isWhiteSpace_def word_le_nat_alt word_unat_eq_iff)

lemma lowerUnit_unat:
  "unat (lowerUnit c) = (if 0x41 \<le> unat c \<and> unat c \<le> 0x5A then unat c + 0x20 else unat c)"
proof (cases "0x41 \<le> c \<and> c \<le> 0x5A")
  case True
  then have b: "0x41 \<le> unat c" "unat c \<le> 0x5A"
    by (simp_all add: word_le_nat_alt)
  then have "unat c + unat (0x20 :: 16 word) < 2 ^ LENGTH(16)" by simp
  then have "unat (c + 0x20) = unat c + unat (0x20 :: 16 word)"
    by (simp only: unat_add_lem)
  then show ?thesis using True b by (simp add: lowerUnit_def)
next
  case False
  then show ?thesis by (auto simp add: lowerUnit_def word_le_nat_alt)
qed

lemma isWhiteSpace_lowerUnit: "isWhiteSpace (lowerUnit c) = isWhiteSpace c"
  unfolding isWhiteSpace_unat lowerUnit_unat by auto

lemma lowerUnit_at: "lowerUnit c = 0x40 \<longleftrightarrow> c = 0x40"
proof -
  have "lowerUnit c = 0x40 \<longleftrightarrow> unat (lowerUnit c) = 0x40"
    by (simp add: word_unat_eq_iff)
  also have "\<dots> \<longleftrightarrow> unat c = 0x40"
    unfolding lowerUnit_unat by auto
  also have "\<dots> \<longleftrightarrow> c = 0x40"
    by (simp add: word_unat_eq_iff)
  finally show ?thesis .
qed

lemma trim_Nil: "trim [] = []"
  by (simp add: trim_def)

lemma trim_whitespace_only: "list_all isWhiteSpace s \<Longrightarrow> trim s = []"
proof -
  assume "list_all isWhiteSpace s"
  then have d: "dropWhile isWhiteSpace s = []"
    using dropWhile_eq_Nil_conv [of isWhiteSpace s] by (simp add: list_all_iff)
  show ?thesis unfolding trim_def d by simp
qed

lemma trim_Cons: "\<not> isWhiteSpace c \<Longrightarrow> trim (c # cs) = c # rev (dropWhile isWhiteSpace (rev cs))"
  by (simp add: trim_def dropWhile_append3)

lemma trim_dropWhile: "trim (dropWhile isWhiteSpace s) = trim s"
  by (simp add: trim_def)

lemma trim_cases:
  obtains "trim s = []"
  | c cs where "\<not> isWhiteSpace c" "trim s = c # rev (dropWhile isWhiteSpace (rev cs))"
proof (cases "dropWhile isWhiteSpace s")
  case Nil
  have "trim s = []" unfolding trim_def Nil by simp
  then show ?thesis by (rule that(1))
next
  case (Cons c cs)
  then have "\<not> isWhiteSpace c" using hd_dropWhile [of isWhiteSpace s] by auto
  moreover from this have "trim s = c # rev (dropWhile isWhiteSpace (rev cs))"
    using trim_Cons [of c cs] trim_dropWhile [of s] Cons by simp
  ultimately show ?thesis by (rule that(2))
qed

lemma trim_idem: "trim (trim s) = trim s"
proof (cases s rule: trim_cases)
  case 1
  then show ?thesis by (simp add: trim_Nil)
next
  case (2 c cs)
  then show ?thesis by (simp add: trim_Cons)
qed

lemma trim_fixed:
  "dropWhile isWhiteSpace t = t \<Longrightarrow> dropWhile isWhiteSpace (rev t) = rev t \<Longrightarrow> trim t = t"
  by (simp add: trim_def)

lemma toLowerCase_trim: "trim (toLowerCase s) = toLowerCase (trim s)"
proof -
  have comp: "isWhiteSpace \<circ> lowerUnit = isWhiteSpace"
    by (rule ext) (simp add: isWhiteSpace_lowerUnit)
  show ?thesis
    by (simp add: trim_def toLowerCase_def dropWhile_map rev_map comp)
qed

lemma toLowerCase_replace_leading_at:
  "replace_leading_at (toLowerCase s) = toLowerCase (replace_leading_at s)"
  by (cases s) (simp_all add: replace_leading_at_def toLowerCase_def lowerUnit_at)

lemma normalize_app_idem:
  assumes at: "replace_leading_at (normalize_app s) = normalize_app s"
    and ws: "dropWhile isWhiteSpace (normalize_app s) = normalize_app s"
  shows "normalize_app (normalize_app s) = normalize_app s"
proof (cases s rule: trim_cases)
  case 1
  then show ?thesis by (simp add: normalize_app_def replace_leading_at_def trim_Nil)
next
  case (2 c cs)
  define r where "r = rev (dropWhile isWhiteSpace (rev cs))"
  have tr: "trim s = c # r" using 2 by (simp add: r_def)
  have rr: "dropWhile isWhiteSpace (rev r) = rev r" by (simp add: r_def)
  show ?thesis
  proof (cases "c = 0x40")
    case True
    then have n: "normalize_app s = r"
      by (simp add: normalize_app_def tr replace_leading_at_def)
    from ws have "trim r = r" unfolding n using rr by (rule trim_fixed)
    moreover from at have "replace_leading_at r = r" by (simp only: n)
    ultimately have "normalize_app r = r" by (simp add: normalize_app_def)
    then show ?thesis by (simp only: n)
  next
    case False
    then have n: "normalize_app s = trim s"
      by (simp add: normalize_app_def tr replace_leading_at_def)
    from at have "replace_leading_at (trim s) = trim s" by (simp only: n)
    then have "normalize_app (trim s) = trim s" by (simp add: normalize_app_def trim_idem)
    then show ?thesis by (simp only: n)
  qed
qed

lemma normalize_frame_idem:
  assumes "lc (normalize_frame lc s) = normalize_frame lc s"
    and "replace_leading_at (normalize_frame lc s) = normalize_frame lc s"
  shows "normalize_frame lc (normalize_frame lc s) = normalize_frame lc s"
proof -
  have "normalize_frame lc (normalize_frame lc s) = trim (replace_leading_at (normalize_frame lc s))"
    using assms(1) by (simp add: normalize_frame_def)
  also have "\<dots> = trim (normalize_frame lc s)"
    using assms(2) by simp
  also have "\<dots> = normalize_frame lc s"
    by (simp add: normalize_frame_def trim_idem)
  finally show ?thesis .
qed

lemma not_isWhiteSpace_at: "\<not> isWhiteSpace 0x40"
  by (simp add: isWhiteSpace_def)

lemma rtrim_whitespace_only:
  "list_all isWhiteSpace cs \<Longrightarrow> rev (dropWhile isWhiteSpace (rev cs)) = []"
proof -
  assume "list_all isWhiteSpace cs"
  then have "list_all isWhiteSpace (rev cs)" by (simp add: list_all_iff)
  then have "dropWhile isWhiteSpace (rev cs) = []"
    using dropWhile_eq_Nil_conv [of isWhiteSpace "rev cs"] by (simp add: list_all_iff)
  then show ?thesis by (simp only: rev.simps)
qed

lemma trim_replace_commute:
  assumes "cleanLeadingAt s"
  shows "trim (replace_leading_at s) = replace_leading_at (trim s)"
proof (cases s)
  case Nil
  then show ?thesis by (simp add: replace_leading_at_def trim_Nil)
next
  case (Cons c cs)
  show ?thesis
  proof (cases "c = 0x40")
    case True
    with Cons have strip: "replace_leading_at s = cs" by (simp add: replace_leading_at_def)
    have "cs \<noteq> s" using Cons by simp
    with assms have "dropWhile isWhiteSpace cs = cs \<or> list_all isWhiteSpace cs"
      unfolding cleanLeadingAt_def strip by blast
    then have "trim cs = rev (dropWhile isWhiteSpace (rev cs))"
    proof
      assume "dropWhile isWhiteSpace cs = cs"
      then show ?thesis by (simp add: trim_def)
    next
      assume "list_all isWhiteSpace cs"
      then show ?thesis by (simp add: trim_whitespace_only rtrim_whitespace_only)
    qed
    with True Cons show ?thesis
      by (simp add: replace_leading_at_def trim_Cons not_isWhiteSpace_at)
  next
    case False
    with Cons have strip: "replace_leading_at s = s" by (simp add: replace_leading_at_def)
    have "replace_leading_at (trim s) = trim s"
    proof (cases "dropWhile isWhiteSpace s")
      case Nil
      have "trim s = []" unfolding trim_def Nil by simp
      then show ?thesis by (simp add: replace_leading_at_def)
    next
      case (Cons d ds)
      then have nw: "\<not> isWhiteSpace d" using hd_dropWhile [of isWhiteSpace s] by auto
      have "d \<noteq> 0x40"
      proof (cases "dropWhile isWhiteSpace s = s")
        case True
        with Cons \<open>s = c # cs\<close> False show ?thesis by simp
      next
        case False
        with assms have "replace_leading_at (d # ds) = d # ds"
          by (simp add: cleanLeadingAt_def Cons)
        then show ?thesis by (auto simp add: replace_leading_at_def split: if_splits)
      qed
      moreover have "trim s = d # rev (dropWhile isWhiteSpace (rev ds))"
        using trim_Cons [OF nw, of ds] trim_dropWhile [of s] Cons by simp
      ultimately show ?thesis by (simp add: replace_leading_at_def)
    qed
    then show ?thesis by (simp add: strip)
  qed
qed

lemma normalize_frame_spec_order:
  "cleanLeadingAt s \<Longrightarrow> normalize_frame toLowerCase s = normalize_spec toLowerCase s"
  using trim_replace_commute [of s]
  by (simp add: normalize_frame_def normalize_spec_def toLowerCase_trim
      toLowerCase_replace_leading_at)

text \<open>The condition is also necessary for the two orders to agree.\<close>

lemma rtrim_hd:
  assumes "rev (dropWhile isWhiteSpace (rev cs)) \<noteq> []"
  shows "hd (rev (dropWhile isWhiteSpace (rev cs))) = hd cs"
proof -
  let ?d = "dropWhile isWhiteSpace (rev cs)"
  from assms have d: "?d \<noteq> []" by simp
  have "rev cs = takeWhile isWhiteSpace (rev cs) @ ?d" by simp
  then have "last (rev cs) = last ?d" using d by (metis last_appendR)
  moreover have "cs \<noteq> []" using d by auto
  ultimately show ?thesis using d by (simp add: hd_rev last_rev)
qed

lemma trim_replace_commute_only:
  assumes "trim (replace_leading_at s) = replace_leading_at (trim s)"
  shows "cleanLeadingAt s"
proof (rule ccontr)
  assume n: "\<not> cleanLeadingAt s"
  then consider
    (blank_at) "dropWhile isWhiteSpace s \<noteq> s"
      "replace_leading_at (dropWhile isWhiteSpace s) \<noteq> dropWhile isWhiteSpace s"
    | (at_blank) "replace_leading_at s \<noteq> s"
      "dropWhile isWhiteSpace (replace_leading_at s) \<noteq> replace_leading_at s"
      "\<not> list_all isWhiteSpace (replace_leading_at s)"
    unfolding cleanLeadingAt_def by blast
  then show False
  proof cases
    case blank_at
    from blank_at(2) obtain ts where t: "dropWhile isWhiteSpace s = 0x40 # ts"
      by (cases "dropWhile isWhiteSpace s") (auto simp add: replace_leading_at_def split: if_splits)
    from blank_at(1) obtain c cs where s: "s = c # cs" "isWhiteSpace c"
      by (cases s) (auto split: if_splits)
    then have "c \<noteq> 0x40" using not_isWhiteSpace_at by blast
    with s have strip: "replace_leading_at s = s" by (simp add: replace_leading_at_def)
    have "trim s = 0x40 # rev (dropWhile isWhiteSpace (rev ts))"
      using trim_Cons [OF not_isWhiteSpace_at, of ts] trim_dropWhile [of s] t by simp
    then have "length (replace_leading_at (trim s)) < length (trim s)"
      by (simp add: replace_leading_at_def)
    with assms strip show False by simp
  next
    case at_blank
    from at_blank(1) obtain cs where s: "s = 0x40 # cs"
      by (cases s) (auto simp add: replace_leading_at_def split: if_splits)
    then have strip: "replace_leading_at s = cs" by (simp add: replace_leading_at_def)
    from at_blank(2) have lead: "cs \<noteq> []" "isWhiteSpace (hd cs)"
      unfolding strip by (cases cs; auto split: if_splits)+
    from at_blank(3) have "\<not> list_all isWhiteSpace (rev cs)"
      unfolding strip by (simp add: list_all_iff)
    then have "dropWhile isWhiteSpace (rev cs) \<noteq> []"
      using dropWhile_eq_Nil_conv [of isWhiteSpace "rev cs"] by (simp add: list_all_iff)
    then have r: "rev (dropWhile isWhiteSpace (rev cs)) \<noteq> []" by simp
    have right: "replace_leading_at (trim s) = rev (dropWhile isWhiteSpace (rev cs))"
      using s by (simp add: trim_Cons not_isWhiteSpace_at replace_leading_at_def)
    from assms have eq: "trim cs = rev (dropWhile isWhiteSpace (rev cs))"
      by (simp only: strip right)
    show False
    proof (cases cs rule: trim_cases)
      case 1
      with eq r show False by simp
    next
      case (2 d ds)
      from 2(2) eq have "rev (dropWhile isWhiteSpace (rev cs)) =
          d # rev (dropWhile isWhiteSpace (rev ds))"
        by (simp only:)
      then have "hd (rev (dropWhile isWhiteSpace (rev cs))) = d" by (simp only: list.sel)
      with rtrim_hd [OF r] lead 2 show False by simp
    qed
  qed
qed

lemma trim_replace_commute_iff:
  "trim (replace_leading_at s) = replace_leading_at (trim s) \<longleftrightarrow> cleanLeadingAt s"
  using trim_replace_commute trim_replace_commute_only by blast

section \<open>The metrics generators\<close>

lemmas eval_defs = js_def normalize_app_def normalize_frame_def normalize_spec_def trim_def
  replace_leading_at_def isWhiteSpace_def toLowerCase_def lowerUnit_def or_else_def
  maincharacter_def anon_def

lemmas hash_defs = hashHandle_app_def hashHandle_frame_def ToUint32_def ToInt32_def js_or0_def
  js_shl_def js_sar_def js_rem_def charCode_def


lemma generateMetrics_frame_cong:
  "normalize_frame lc a = normalize_frame lc b \<Longrightarrow>
   generateMetrics_frame lc a = generateMetrics_frame lc b"
  by (simp add: generateMetrics_frame_def normalize_frame_def)

lemma prepend_Inr: "prepend p (Inr t) = Inr (p @ t)"
  by (simp add: prepend_def)

lemma encodeURIComponent_no_surrogates:
  "list_all (\<lambda>c. \<not> isLeadSurrogate c \<and> \<not> isTrailSurrogate c) t \<Longrightarrow>
   \<exists>seed. encodeURIComponent t = Inr seed"
proof (induction t)
  case Nil
  then show ?case by simp
next
  case (Cons c cs)
  then obtain seed where "encodeURIComponent cs = Inr seed" by auto
  with Cons.prems show ?case by (simp add: prepend_Inr)
qed

lemma prepend_Inl: "prepend p r = Inl e \<longleftrightarrow> r = Inl e"
  by (cases r) (simp_all add: prepend_def)

lemma encodeURIComponent_error: "encodeURIComponent t = Inl e \<Longrightarrow> e = URIError"
proof (induction t rule: encodeURIComponent.induct)
  case 1
  then show ?case by simp
next
  case (2 c cs)
  then show ?case
    by (cases e) (auto simp add: prepend_Inl split: if_splits list.splits)
qed

lemma captions_length: "length captions = 5"
  by (simp add: captions_def)

lemma js_index_member:
  "0 \<le> i \<Longrightarrow> i < int (length xs) \<Longrightarrow> js_index xs i \<in> Some ` set xs"
  by (simp add: js_index_def)

lemma generateMetrics_app_Inr:
  assumes "generateMetrics_app lc s = Inr r"
  shows "50 \<le> mainCharacter r \<and> mainCharacter r \<le> 100 \<and>
         0 \<le> npcEnergy r \<and> npcEnergy r \<le> 100 \<and>
         caption r \<in> Some ` set captions \<and>
         10000 \<le> fid r \<and> fid r \<le> 909999"
proof -
  define h where "h = hashHandle_app (or_else (or_else (normalize_app s) maincharacter) maincharacter)"
  have h0: "0 \<le> h" unfolding h_def using hashHandle_app_range by blast
  have m51: "0 \<le> h mod 51" "h mod 51 \<le> 50"
    using pos_mod_bound [of 51 h] by simp_all
  have m5: "0 \<le> h mod 5" "h mod 5 < 5" by simp_all
  have m9: "0 \<le> h mod 900000" "h mod 900000 \<le> 899999"
    using pos_mod_bound [of 900000 h] by simp_all
  have cap: "js_index captions (h mod 5) \<in> Some ` set captions"
    using m5 by (intro js_index_member) (simp_all add: captions_length)
  from assms obtain seed where
    r: "r = \<lparr>mainCharacter = js_rem h 51 + 50,
         npcEnergy = max 0 (min 100 (100 - (js_rem h 51 + 50) + js_rem (js_sar h 3) 11 - 5)),
         plotArmor = (if js_rem (js_sar h 7) 100 > 70 then High
                      else if js_rem (js_sar h 7) 100 > 40 then Medium else Low),
         caption = js_index captions (js_rem h (int (length captions))),
         fid = js_rem h 900000 + 10000,
         avatarUrl = js ''https://api.dicebear.com/9.x/thumbs/svg?seed='' @ seed\<rparr>"
    by (auto simp add: generateMetrics_app_def normalize_app_def Let_def h_def split: sum.splits)
  show ?thesis
    using h0 m51 m9 cap by (simp add: r js_rem_nonneg captions_length)
qed

lemma generateMetrics_app_returns:
  "(\<exists>r. generateMetrics_app lc s = Inr r) \<longleftrightarrow>
   (\<exists>seed. encodeURIComponent (lc (or_else (normalize_app s) maincharacter)) = Inr seed)"
  by (auto simp add: generateMetrics_app_def normalize_app_def Let_def split: sum.splits)

lemma generateMetrics_app_Inl:
  "generateMetrics_app lc s = Inl e \<Longrightarrow> e = URIError"
  by (auto simp add: generateMetrics_app_def Let_def split: sum.splits
      dest: encodeURIComponent_error)

lemma generateMetrics_frame_ranges:
  "50 \<le> mainCharacter (generateMetrics_frame lc s) \<and>
   mainCharacter (generateMetrics_frame lc s) \<le> 100 \<and>
   0 \<le> npcEnergy (generateMetrics_frame lc s) \<and>
   npcEnergy (generateMetrics_frame lc s) \<le> 100 \<and>
   plotArmor (generateMetrics_frame lc s) \<in> {Some Low, Some Medium, Some High}"
proof -
  define h where "h = hashHandle_frame (or_else (normalize_frame lc s) anon)"
  have "0 \<le> h mod 3" "h mod 3 < 3" by simp_all
  then have "nat (h mod 3) = 0 \<or> nat (h mod 3) = 1 \<or> nat (h mod 3) = 2" by linarith
  then have "plotArmorLevels ! nat (h mod 3) \<in> {Low, Medium, High}"
    by (auto simp add: plotArmorLevels_def)
  then have armor: "plotArmor (generateMetrics_frame lc s) \<in> {Some Low, Some Medium, Some High}"
    unfolding generateMetrics_frame_fields h_def [symmetric] by auto
  have "0 \<le> h mod 51" "h mod 51 \<le> 50" "0 \<le> h mod 41" "h mod 41 \<le> 40"
    using pos_mod_bound [of 51 h] pos_mod_bound [of 41 h] by simp_all
  then have "50 \<le> mainCharacter (generateMetrics_frame lc s) \<and>
      mainCharacter (generateMetrics_frame lc s) \<le> 100 \<and>
      0 \<le> npcEnergy (generateMetrics_frame lc s) \<and>
      npcEnergy (generateMetrics_frame lc s) \<le> 100"
    unfolding generateMetrics_frame_fields h_def [symmetric] by simp
  with armor show ?thesis by simp
qed

subsection \<open>The fallback literals\<close>

lemma or_else_Nil: "or_else [] d = d"
  by (simp add: or_else_def)

lemma or_else_same: "or_else d d = d"
  by (simp add: or_else_def)

lemma normalize_app_whitespace: "list_all isWhiteSpace s \<Longrightarrow> normalize_app s = []"
  by (simp add: normalize_app_def trim_whitespace_only replace_leading_at_def)

lemma normalize_app_maincharacter: "normalize_app maincharacter = maincharacter"
  by (simp add: eval_defs)

lemma normalize_frame_anon: "trim (replace_leading_at anon) = anon"
  by (simp add: eval_defs)

lemma generateMetrics_app_base:
  "or_else (normalize_app a) maincharacter = or_else (normalize_app b) maincharacter \<Longrightarrow>
   generateMetrics_app lc a = generateMetrics_app lc b"
  by (simp add: generateMetrics_app_def normalize_app_def)

lemma generateMetrics_frame_base:
  "or_else (normalize_frame lc a) anon = or_else (normalize_frame lc b) anon \<Longrightarrow>
   generateMetrics_frame lc a = generateMetrics_frame lc b"
  by (simp add: generateMetrics_frame_def normalize_frame_def)

lemma generateMetrics_app_lc:
  "lc (or_else (normalize_app a) maincharacter) = lc' (or_else (normalize_app a) maincharacter) \<Longrightarrow>
   generateMetrics_app lc a = generateMetrics_app lc' a"
  by (simp add: generateMetrics_app_def normalize_app_def)

lemma generateMetrics_frame_lc:
  "lc a = lc' a \<Longrightarrow> generateMetrics_frame lc a = generateMetrics_frame lc' a"
  by (simp add: generateMetrics_frame_def)

lemma toLowerCase_maincharacter: "toLowerCase maincharacter = maincharacter"
  by (simp add: eval_defs)

lemma toLowerCase_anon: "toLowerCase anon = anon"
  by (simp add: eval_defs)

lemma hashHandle_app_maincharacter: "hashHandle_app maincharacter = 3736147344"
  by (simp add: maincharacter_def js_def hashHandle_app_def ToUint32_def charCode_def)

lemma hashHandle_frame_anon: "hashHandle_frame anon = 2998988"
  by (simp add: anon_def js_def hash_defs)

lemma encodeURIComponent_maincharacter:
  "encodeURIComponent maincharacter = Inr maincharacter"
  by (simp add: maincharacter_def js_def uriUnreserved_def prepend_def)

lemma generateMetrics_app_maincharacter:
  "generateMetrics_app toLowerCase maincharacter =
     Inr \<lparr>mainCharacter = 53, npcEnergy = 34, plotArmor = Low,
          caption = Some (js ''Somewhere, a writer is adding you to season two.''),
          fid = 257344,
          avatarUrl = js ''https://api.dicebear.com/9.x/thumbs/svg?seed=maincharacter''\<rparr>"
proof -
  have n: "replace_leading_at (trim maincharacter) = maincharacter"
    using normalize_app_maincharacter by (simp add: normalize_app_def)
  have seed: "js ''https://api.dicebear.com/9.x/thumbs/svg?seed='' @ maincharacter =
      js ''https://api.dicebear.com/9.x/thumbs/svg?seed=maincharacter''"
    by (simp add: js_def maincharacter_def)
  show ?thesis
    by (simp add: generateMetrics_app_def n or_else_same Let_def toLowerCase_maincharacter
        encodeURIComponent_maincharacter hashHandle_app_maincharacter seed js_rem_def
        js_sar_def ToInt32_def js_index_def captions_def)
qed

lemma generateMetrics_frame_anon:
  "generateMetrics_frame toLowerCase anon =
     \<lparr>mainCharacter = 85, npcEnergy = 98, plotArmor = Some High\<rparr>"
  by (simp add: generateMetrics_frame_def toLowerCase_anon normalize_frame_anon or_else_same
      hashHandle_frame_anon js_rem_def js_index_def plotArmorLevels_def)

section \<open>The two request handlers\<close>

lemma infix_in_lines:
  "\<exists>pre post. l1 @ n1 @ l2 @ n2 @ l3 @ n3 @ l4 @ n4 @ (ind @ m) @ x @ q @ rest =
     pre @ (m @ x @ q) @ post"
  by (rule exI [of _ "l1 @ n1 @ l2 @ n2 @ l3 @ n3 @ l4 @ n4 @ ind"], rule exI [of _ rest]) simp

lemma buildFrameHtml_description:
  \<open>\<exists>pre post. buildFrameHtml lc opts =
     pre @ (js ''<meta property="og:description" content="'' @
            subtitle lc (normalize_frame lc (handle opts)) @ js ''" />'') @ post\<close>
proof -
  have split: \<open>js ''    <meta property="og:description" content="'' =
      js ''    '' @ js ''<meta property="og:description" content="''\<close>
    by (simp add: js_def)
  show ?thesis
    unfolding buildFrameHtml_def Let_def normalize_frame_def split
    by (rule infix_in_lines)
qed

lemma subtitle_empty:
  "subtitle lc [] = js ''Drop your handle to scan your Main Character Energy''"
  by (simp add: subtitle_def Let_def)

lemma subtitle_alice:
  "subtitle lc (js ''alice'') =
     js ''@alice: MC '' @ numberToString (mainCharacter (generateMetrics_frame lc (js ''alice''))) @
     js '' '' @ [0xB7] @ js '' NPC '' @
     numberToString (npcEnergy (generateMetrics_frame lc (js ''alice''))) @
     js '' '' @ [0xB7] @ js '' Armor '' @
     armorToString (plotArmor (generateMetrics_frame lc (js ''alice'')))"
proof -
  have "length (js ''alice'') > 0" by (simp add: js_def)
  moreover have "js ''@'' @ js ''alice'' @ js '': MC '' @ t = js ''@alice: MC '' @ t" for t
    by (simp add: js_def)
  ultimately show ?thesis by (simp add: subtitle_def Let_def)
qed

lemma normalize_frame_empty: "normalize_frame toLowerCase [] = []"
  by (simp add: eval_defs)

lemma normalize_frame_alice: "normalize_frame toLowerCase (js ''alice'') = js ''alice''"
  by (simp add: eval_defs)

lemma frame_handler_GET:
  "frame_handler lc \<lparr>http_method = js ''GET'', json_body = b\<rparr> =
     htmlResponse (buildFrameHtml lc
       \<lparr>handle = [], imageUrl = frame_imageUrl, appUrl = frame_appUrl\<rparr>)"
  by (simp add: frame_handler_def js_def)

lemma inputTextOf_alice:
  "inputTextOf (Some (JObject [(js ''untrustedData'',
      JObject [(js ''inputText'', JString (js ''alice''))])])) = Inr (js ''alice'')"
  by (simp add: inputTextOf_def js_def)

lemma frame_handler_POST_alice:
  "frame_handler lc \<lparr>http_method = js ''POST'', json_body = Some (JObject [(js ''untrustedData'',
      JObject [(js ''inputText'', JString (js ''alice''))])])\<rparr> =
     htmlResponse (buildFrameHtml lc
       \<lparr>handle = js ''alice'', imageUrl = frame_imageUrl, appUrl = frame_appUrl\<rparr>)"
proof -
  have "js ''POST'' \<noteq> js ''OPTIONS''" "js ''POST'' \<noteq> js ''GET''"
    by (simp_all add: js_def)
  then show ?thesis
    by (simp add: frame_handler_def inputTextOf_alice)
qed

lemma generateMetrics_frame_alice:
  "generateMetrics_frame toLowerCase (js ''alice'') =
     \<lparr>mainCharacter = 62, npcEnergy = 67, plotArmor = Some Low\<rparr>"
  by (simp add: generateMetrics_frame_def eval_defs hash_defs js_index_def plotArmorLevels_def)

lemma proxy_handler_parsed:
  assumes "http_method req \<noteq> js ''OPTIONS''"
    and "json_body req = Some parsed"
    and "js_get parsed (js ''username'') = Inr username"
  shows "proxy_handler lookup env req =
     (if \<not> truthy username then jsonError 400 (Literal (js ''Username is required''))
      else if env = None \<or> env = Some []
      then jsonError 500 (Literal (js ''API key not configured''))
      else lookup (the env) (the username))"
  using assms by (cases env) (simp_all add: proxy_handler_def)

lemma proxy_handler_rejected:
  "http_method req \<noteq> js ''OPTIONS'' \<Longrightarrow> json_body req = None \<Longrightarrow>
   proxy_handler lookup env req = jsonError 500 CaughtMessage"
  by (simp add: proxy_handler_def)

subsection \<open>The handle that is hashed\<close>


lemma hashHandle_app_Foo: "hashHandle_app (js ''Foo'') = 70822"
  by (simp add: js_def hashHandle_app_def ToUint32_def charCode_def)

lemma hashHandle_app_foo: "hashHandle_app (js ''foo'') = 101574"
  by (simp add: js_def hashHandle_app_def ToUint32_def charCode_def)

lemma hashHandle_frame_foo: "hashHandle_frame (js ''foo'') = 101574"
  by (simp add: js_def hash_defs)

lemma hashHandle_frame_at_foo: "hashHandle_frame (js ''@foo'') = 2008198"
  by (simp add: js_def hash_defs)

lemma generateMetrics_app_fields:
  "case generateMetrics_app lc s of
     Inl e \<Rightarrow> e = URIError
   | Inr r \<Rightarrow>
       mainCharacter r = hashHandle_app (or_else (normalize_app s) maincharacter) mod 51 + 50 \<and>
       fid r = hashHandle_app (or_else (normalize_app s) maincharacter) mod 900000 + 10000"
proof (cases "generateMetrics_app lc s")
  case (Inl e)
  then show ?thesis by (simp add: generateMetrics_app_Inl)
next
  case (Inr r)
  have b: "or_else (or_else (normalize_app s) maincharacter) maincharacter =
      or_else (normalize_app s) maincharacter"
    by (simp add: or_else_def)
  have h: "0 \<le> hashHandle_app (or_else (normalize_app s) maincharacter)"
    using hashHandle_app_range by blast
  from Inr have "mainCharacter r = js_rem (hashHandle_app (or_else (normalize_app s) maincharacter)) 51 + 50 \<and>
      fid r = js_rem (hashHandle_app (or_else (normalize_app s) maincharacter)) 900000 + 10000"
    by (auto simp add: generateMetrics_app_def normalize_app_def [symmetric] Let_def b
        split: sum.splits)
  with h Inr show ?thesis by (simp add: js_rem_nonneg)
qed

lemma generateMetrics_app_values:
  "\<exists>r. generateMetrics_app toLowerCase (js '' @Foo'') = Inr r \<and> mainCharacter r = 84 \<and> fid r = 80822"
  "\<exists>r. generateMetrics_app toLowerCase (js ''Foo'') = Inr r \<and> mainCharacter r = 84 \<and> fid r = 80822"
  "\<exists>r. generateMetrics_app toLowerCase (js ''foo'') = Inr r \<and> mainCharacter r = 83 \<and> fid r = 111574"
proof -
  have n: "normalize_app (js '' @Foo'') = js ''Foo''" "normalize_app (js ''Foo'') = js ''Foo''"
    "normalize_app (js ''foo'') = js ''foo''"
    by (simp_all add: eval_defs)
  have o: "or_else (js ''Foo'') maincharacter = js ''Foo''"
    "or_else (js ''foo'') maincharacter = js ''foo''"
    by (simp_all add: or_else_def js_def)
  have ns: "list_all (\<lambda>c. \<not> isLeadSurrogate c \<and> \<not> isTrailSurrogate c) (toLowerCase (js ''Foo''))"
    "list_all (\<lambda>c. \<not> isLeadSurrogate c \<and> \<not> isTrailSurrogate c) (toLowerCase (js ''foo''))"
    by (simp_all add: eval_defs isLeadSurrogate_def isTrailSurrogate_def)
  have r1: "\<exists>r. generateMetrics_app toLowerCase (js '' @Foo'') = Inr r"
    "\<exists>r. generateMetrics_app toLowerCase (js ''Foo'') = Inr r"
    "\<exists>r. generateMetrics_app toLowerCase (js ''foo'') = Inr r"
    by (simp_all add: generateMetrics_app_returns n o encodeURIComponent_no_surrogates ns)
  show "\<exists>r. generateMetrics_app toLowerCase (js '' @Foo'') = Inr r \<and> mainCharacter r = 84 \<and> fid r = 80822"
    using r1(1) generateMetrics_app_fields [where lc = toLowerCase and s = "js '' @Foo''"]
    by (auto simp add: n o hashHandle_app_Foo)
  show "\<exists>r. generateMetrics_app toLowerCase (js ''Foo'') = Inr r \<and> mainCharacter r = 84 \<and> fid r = 80822"
    using r1(2) generateMetrics_app_fields [where lc = toLowerCase and s = "js ''Foo''"]
    by (auto simp add: n o hashHandle_app_Foo)
  show "\<exists>r. generateMetrics_app toLowerCase (js ''foo'') = Inr r \<and> mainCharacter r = 83 \<and> fid r = 111574"
    using r1(3) generateMetrics_app_fields [where lc = toLowerCase and s = "js ''foo''"]
    by (auto simp add: n o hashHandle_app_foo)
qed


lemma generateMetrics_frame_values:
  "generateMetrics_frame toLowerCase (js '' @Foo'') =
     \<lparr>mainCharacter = 72, npcEnergy = 82, plotArmor = Some Medium\<rparr>"
  "generateMetrics_frame toLowerCase (js ''foo'') =
     \<lparr>mainCharacter = 83, npcEnergy = 83, plotArmor = Some Low\<rparr>"
  "generateMetrics_frame toLowerCase (js ''  Foo '') =
     \<lparr>mainCharacter = 83, npcEnergy = 83, plotArmor = Some Low\<rparr>"
proof -
  have n: "trim (replace_leading_at (toLowerCase (js '' @Foo''))) = js ''@foo''"
    "trim (replace_leading_at (toLowerCase (js ''foo''))) = js ''foo''"
    "trim (replace_leading_at (toLowerCase (js ''  Foo ''))) = js ''foo''"
    by (simp_all add: eval_defs)
  have o: "or_else (js ''@foo'') anon = js ''@foo''" "or_else (js ''foo'') anon = js ''foo''"
    by (simp_all add: or_else_def js_def)
  show "generateMetrics_frame toLowerCase (js '' @Foo'') =
     \<lparr>mainCharacter = 72, npcEnergy = 82, plotArmor = Some Medium\<rparr>"
    by (simp add: generateMetrics_frame_def n o hashHandle_frame_at_foo js_rem_def js_index_def
        plotArmorLevels_def)
  show "generateMetrics_frame toLowerCase (js ''foo'') =
     \<lparr>mainCharacter = 83, npcEnergy = 83, plotArmor = Some Low\<rparr>"
    by (simp add: generateMetrics_frame_def n o hashHandle_frame_foo js_rem_def js_index_def
        plotArmorLevels_def)
  show "generateMetrics_frame toLowerCase (js ''  Foo '') =
     \<lparr>mainCharacter = 83, npcEnergy = 83, plotArmor = Some Low\<rparr>"
    by (simp add: generateMetrics_frame_def n o hashHandle_frame_foo js_rem_def js_index_def
        plotArmorLevels_def)
qed

lemma generateMetrics_frame_spec_fields:
  assumes "cleanLeadingAt s"
  shows "mainCharacter (generateMetrics_frame toLowerCase s) =
      hashHandle_frame (or_else (normalize_spec toLowerCase s) anon) mod 51 + 50"
    and "npcEnergy (generateMetrics_frame toLowerCase s) =
      100 - hashHandle_frame (or_else (normalize_spec toLowerCase s) anon) mod 41"
    and "plotArmor (generateMetrics_frame toLowerCase s) =
      js_index plotArmorLevels (hashHandle_frame (or_else (normalize_spec toLowerCase s) anon) mod 3)"
proof -
  have n: "normalize_frame toLowerCase s = normalize_spec toLowerCase s"
    using assms by (rule normalize_frame_spec_order)
  have h: "0 \<le> hashHandle_frame (or_else (normalize_spec toLowerCase s) anon)"
    using hashHandle_frame_range by blast
  show "mainCharacter (generateMetrics_frame toLowerCase s) =
      hashHandle_frame (or_else (normalize_spec toLowerCase s) anon) mod 51 + 50"
    by (simp add: generateMetrics_frame_fields n)
  show "npcEnergy (generateMetrics_frame toLowerCase s) =
      100 - hashHandle_frame (or_else (normalize_spec toLowerCase s) anon) mod 41"
    by (simp add: generateMetrics_frame_fields n)
  show "plotArmor (generateMetrics_frame toLowerCase s) =
      js_index plotArmorLevels (hashHandle_frame (or_else (normalize_spec toLowerCase s) anon) mod 3)"
    using h by (simp add: generateMetrics_frame_def normalize_frame_def [symmetric] n Let_def
        js_rem_nonneg plotArmorLevels_def)
qed

subsection \<open>The document and the null body\<close>

lemma subtitle_alice_text:
  "subtitle toLowerCase (js ''alice'') =
     js ''@alice: MC 62 '' @ [0xB7] @ js '' NPC 67 '' @ [0xB7] @ js '' Armor Low''"
  unfolding subtitle_alice generateMetrics_frame_alice
  by (simp add: numberToString_def js_def)

lemma js_get_cases: "(\<exists>u. js_get parsed name = Inr u) \<or> parsed = JNull"
  by (cases parsed) simp_all

lemma proxy_handler_null:
  "http_method req \<noteq> js ''OPTIONS'' \<Longrightarrow> json_body req = Some JNull \<Longrightarrow>
   proxy_handler lookup env req = jsonError 500 CaughtMessage"
  by (simp add: proxy_handler_def)

section \<open>Claims\<close>




text \<open>
  C2. Ranges: the frame generator always returns \<open>mainCharacter\<close> in \<open>50..100\<close>,
  \<open>npcEnergy\<close> in \<open>0..100\<close> and a \<open>plotArmor\<close> among Low, Medium, High. Every result
  of the interactive generator has the same ranges and one of the five captions. The
  interactive generator returns a result whenever the lower-cased base handle holds no
  surrogate code unit; its only failure is the \<open>URIError\<close> of \<open>encodeURIComponent\<close>.
\<close>

theorem generateMetrics_ranges:
  "(50 \<le> mainCharacter (generateMetrics_frame lc s) \<and>
    mainCharacter (generateMetrics_frame lc s) \<le> 100 \<and>
    0 \<le> npcEnergy (generateMetrics_frame lc s) \<and>
    npcEnergy (generateMetrics_frame lc s) \<le> 100 \<and>
    plotArmor (generateMetrics_frame lc s) \<in> {Some Low, Some Medium, Some High}) \<and>
   (case generateMetrics_app lc s of
      Inl e \<Rightarrow> e = URIError
    | Inr r \<Rightarrow>
        50 \<le> mainCharacter r \<and> mainCharacter r \<le> 100 \<and>
        0 \<le> npcEnergy r \<and> npcEnergy r \<le> 100 \<and>
        plotArmor r \<in> {Low, Medium, High} \<and>
        caption r \<in> Some ` set captions \<and> length captions = 5) \<and>
   (list_all (\<lambda>c. \<not> isLeadSurrogate c \<and> \<not> isTrailSurrogate c)
      (lc (or_else (normalize_app s) maincharacter)) \<longrightarrow>
    (\<exists>r. generateMetrics_app lc s = Inr r))"
proof -
  have app: "case generateMetrics_app lc s of
      Inl e \<Rightarrow> e = URIError
    | Inr r \<Rightarrow>
        50 \<le> mainCharacter r \<and> mainCharacter r \<le> 100 \<and>
        0 \<le> npcEnergy r \<and> npcEnergy r \<le> 100 \<and>
        plotArmor r \<in> {Low, Medium, High} \<and>
        caption r \<in> Some ` set captions \<and> length captions = 5"
  proof (cases "generateMetrics_app lc s")
    case (Inl e)
    then show ?thesis by (simp add: generateMetrics_app_Inl)
  next
    case (Inr r)
    have "plotArmor r \<in> {Low, Medium, High}" by (cases "plotArmor r") simp_all
    with Inr generateMetrics_app_Inr [OF Inr] show ?thesis
      by (simp add: captions_length)
  qed
  have returns: "list_all (\<lambda>c. \<not> isLeadSurrogate c \<and> \<not> isTrailSurrogate c)
      (lc (or_else (normalize_app s) maincharacter)) \<longrightarrow>
    (\<exists>r. generateMetrics_app lc s = Inr r)"
    by (simp add: generateMetrics_app_returns encodeURIComponent_no_surrogates)
  from generateMetrics_frame_ranges [of lc s] app returns show ?thesis
    by (intro conjI) blast+
qed

theorem generateMetrics_ranges_witness:
  "list_all (\<lambda>c. \<not> isLeadSurrogate c \<and> \<not> isTrailSurrogate c)
     (toLowerCase (or_else (normalize_app (js ''@Foo'')) maincharacter)) \<and>
   (\<exists>r. generateMetrics_app toLowerCase (js ''@Foo'') = Inr r) \<and>
   50 \<le> mainCharacter (generateMetrics_frame toLowerCase (js ''@Foo'')) \<and>
   npcEnergy (generateMetrics_frame toLowerCase (js ''@Foo'')) \<le> 100"
proof -
  have h: "list_all (\<lambda>c. \<not> isLeadSurrogate c \<and> \<not> isTrailSurrogate c)
     (toLowerCase (or_else (normalize_app (js ''@Foo'')) maincharacter))"
    by (simp add: eval_defs isLeadSurrogate_def isTrailSurrogate_def)
  show ?thesis
    using h generateMetrics_ranges [of toLowerCase "js ''@Foo''"] by blast
qed

text \<open>
  C3. In the frame responder \<open>npcEnergy\<close> is \<open>100 - (h mod 41)\<close> for the hash \<open>h\<close> of
  the normalized handle (or of the fallback literal); it lies between 60 and 100, the
  values attained over all handles are exactly \<open>60..100\<close>, and the handle \<open>z\<close> attains
  the minimum 60. The value 59 of the source comment is never produced.
\<close>

theorem npcEnergy_frame_range:
  "npcEnergy (generateMetrics_frame lc s) =
     100 - hashHandle_frame (or_else (normalize_frame lc s) anon) mod 41 \<and>
   60 \<le> npcEnergy (generateMetrics_frame lc s) \<and>
   npcEnergy (generateMetrics_frame lc s) \<le> 100 \<and>
   range (\<lambda>handle. 100 - js_rem (hashHandle_frame handle) 41) = {60..100} \<and>
   npcEnergy (generateMetrics_frame toLowerCase (js ''z'')) = 60"
proof -
  have r: "range (\<lambda>handle. 100 - js_rem (hashHandle_frame handle) 41) = {60..100}"
  proof (rule set_eqI, rule iffI)
    fix v assume "v \<in> range (\<lambda>handle. 100 - js_rem (hashHandle_frame handle) 41)"
    then obtain t where "v = 100 - js_rem (hashHandle_frame t) 41" by blast
    then show "v \<in> {60..100}"
      using hashHandle_frame_range [of t] by (simp add: js_rem_nonneg)
  next
    fix v :: int assume v: "v \<in> {60..100}"
    define c :: "16 word" where "c = of_nat (nat (100 - v))"
    have "nat (100 - v) < 2 ^ 16" using v by auto
    then have "unat c = nat (100 - v)"
      unfolding c_def by (simp add: unat_of_nat)
    then have "uint c = 100 - v"
      using v by (simp add: uint_nat)
    then have "100 - js_rem (hashHandle_frame [c]) 41 = v"
      using v by (simp add: single_unit_hash js_rem_nonneg)
    then show "v \<in> range (\<lambda>handle. 100 - js_rem (hashHandle_frame handle) 41)"
      by (metis rangeI)
  qed
  have z: "npcEnergy (generateMetrics_frame toLowerCase (js ''z'')) = 60"
    by (simp add: generateMetrics_frame_def js_def toLowerCase_def lowerUnit_def trim_def
      replace_leading_at_def isWhiteSpace_def or_else_def hashHandle_frame_def js_or0_def
      js_shl_def ToInt32_def charCode_def js_rem_def)
  show ?thesis
    using hashHandle_frame_range [of "or_else (normalize_frame lc s) anon"] r z
    by (simp add: generateMetrics_frame_fields)
qed

text \<open>
  C4 (as amended). The interactive app hashes the handle trimmed and then stripped of one
  leading \<open>@\<close>, in the order of the specification but with no lower-casing: every
  result carries the hash of that string in \<open>mainCharacter\<close> and \<open>fid\<close>, and \<open>" @Foo"\<close>
  is hashed as \<open>Foo\<close> (hash 70822, \<open>fid\<close> 80822). The frame generator hashes the
  handle normalized in the order of the specification (trim, strip one \<open>@\<close>,
  lower-case) whenever the handle is Basic Latin and has no whitespace in front of a
  leading \<open>@\<close> nor right behind it: \<open>"  Foo "\<close> is hashed as \<open>foo\<close> (hash 101574).
\<close>

theorem normalize_order_amended:
  "(case generateMetrics_app lc s of
      Inl e \<Rightarrow> e = URIError
    | Inr r \<Rightarrow>
        mainCharacter r =
          hashHandle_app (or_else (normalize_spec (\<lambda>t. t) s) maincharacter) mod 51 + 50 \<and>
        fid r =
          hashHandle_app (or_else (normalize_spec (\<lambda>t. t) s) maincharacter) mod 900000 + 10000) \<and>
   normalize_spec (\<lambda>t. t) (js '' @Foo'') = js ''Foo'' \<and>
   hashHandle_app (js ''Foo'') = 70822 \<and>
   (\<exists>r. generateMetrics_app toLowerCase (js '' @Foo'') = Inr r \<and>
        mainCharacter r = 84 \<and> fid r = 80822) \<and>
   (basicLatin s \<and> cleanLeadingAt s \<longrightarrow>
      normalize_frame toLowerCase s = normalize_spec toLowerCase s \<and>
      mainCharacter (generateMetrics_frame toLowerCase s) =
        hashHandle_frame (or_else (normalize_spec toLowerCase s) anon) mod 51 + 50 \<and>
      npcEnergy (generateMetrics_frame toLowerCase s) =
        100 - hashHandle_frame (or_else (normalize_spec toLowerCase s) anon) mod 41 \<and>
      plotArmor (generateMetrics_frame toLowerCase s) =
        js_index plotArmorLevels
          (hashHandle_frame (or_else (normalize_spec toLowerCase s) anon) mod 3)) \<and>
   normalize_spec toLowerCase (js ''  Foo '') = js ''foo'' \<and>
   hashHandle_frame (js ''foo'') = 101574 \<and>
   generateMetrics_frame toLowerCase (js ''  Foo '') =
     \<lparr>mainCharacter = 83, npcEnergy = 83, plotArmor = Some Low\<rparr>"
proof -
  have id: "normalize_spec (\<lambda>t. t) s = normalize_app s" for s
    by (simp add: normalize_spec_def normalize_app_def)
  have app: "case generateMetrics_app lc s of
      Inl e \<Rightarrow> e = URIError
    | Inr r \<Rightarrow>
        mainCharacter r =
          hashHandle_app (or_else (normalize_spec (\<lambda>t. t) s) maincharacter) mod 51 + 50 \<and>
        fid r =
          hashHandle_app (or_else (normalize_spec (\<lambda>t. t) s) maincharacter) mod 900000 + 10000"
    unfolding id by (rule generateMetrics_app_fields)
  have ex: "normalize_spec (\<lambda>t. t) (js '' @Foo'') = js ''Foo''"
    "normalize_spec toLowerCase (js ''  Foo '') = js ''foo''"
    by (simp_all add: eval_defs)
  have frame: "basicLatin s \<and> cleanLeadingAt s \<longrightarrow>
      normalize_frame toLowerCase s = normalize_spec toLowerCase s \<and>
      mainCharacter (generateMetrics_frame toLowerCase s) =
        hashHandle_frame (or_else (normalize_spec toLowerCase s) anon) mod 51 + 50 \<and>
      npcEnergy (generateMetrics_frame toLowerCase s) =
        100 - hashHandle_frame (or_else (normalize_spec toLowerCase s) anon) mod 41 \<and>
      plotArmor (generateMetrics_frame toLowerCase s) =
        js_index plotArmorLevels
          (hashHandle_frame (or_else (normalize_spec toLowerCase s) anon) mod 3)"
    using normalize_frame_spec_order [of s] generateMetrics_frame_spec_fields [of s] by blast
  from app ex hashHandle_app_Foo generateMetrics_app_values(1) frame hashHandle_frame_foo
    generateMetrics_frame_values(3)
  show ?thesis by (intro conjI)
qed

theorem normalize_order_amended_witness:
  "basicLatin (js ''  Foo '') \<and> cleanLeadingAt (js ''  Foo '') \<and>
   normalize_frame toLowerCase (js ''  Foo '') = normalize_spec toLowerCase (js ''  Foo '') \<and>
   mainCharacter (generateMetrics_frame toLowerCase (js ''  Foo '')) =
     hashHandle_frame (or_else (normalize_spec toLowerCase (js ''  Foo '')) anon) mod 51 + 50 \<and>
   basicLatin (js ''@Foo'') \<and> cleanLeadingAt (js ''@Foo'') \<and>
   normalize_frame toLowerCase (js ''@Foo'') = normalize_spec toLowerCase (js ''@Foo'')"
proof -
  have h: "basicLatin (js ''  Foo '')" "cleanLeadingAt (js ''  Foo '')"
    "basicLatin (js ''@Foo'')" "cleanLeadingAt (js ''@Foo'')"
    by (simp_all add: basicLatin_def cleanLeadingAt_def eval_defs)
  show ?thesis
    using h normalize_order_amended [where lc = toLowerCase and s = "js ''  Foo ''"]
      normalize_order_amended [where lc = toLowerCase and s = "js ''@Foo''"]
    by blast
qed

text \<open>
  The claim as stated fails at \<open>" @Foo"\<close>: the interactive app keeps the capital
  (\<open>Foo\<close>), and the frame generator, which strips before it trims, keeps the \<open>@\<close>.
\<close>

theorem normalize_order_counterexample:
  "normalize_app (js '' @Foo'') \<noteq> js ''foo'' \<and>
   normalize_frame toLowerCase (js '' @Foo'') \<noteq> js ''foo''"
  by (simp add: eval_defs)

text \<open>
  C5 (as amended). Normalizing a normalized handle changes nothing when the normalized
  handle has no further leading \<open>@\<close> to strip (and, in the interactive app, no leading
  whitespace left behind the stripped \<open>@\<close>; in the frame responder, when lower-casing
  leaves it as it is). The frame generator returns the same metrics on \<open>@Foo\<close> and on
  \<open>foo\<close>.
\<close>

theorem normalize_idempotent_amended:
  "(replace_leading_at (normalize_app s) = normalize_app s \<and>
    dropWhile isWhiteSpace (normalize_app s) = normalize_app s \<longrightarrow>
      normalize_app (normalize_app s) = normalize_app s) \<and>
   (lc (normalize_frame lc s) = normalize_frame lc s \<and>
    replace_leading_at (normalize_frame lc s) = normalize_frame lc s \<longrightarrow>
      normalize_frame lc (normalize_frame lc s) = normalize_frame lc s) \<and>
   generateMetrics_frame toLowerCase (js ''@Foo'') = generateMetrics_frame toLowerCase (js ''foo'')"
proof -
  have "normalize_frame toLowerCase (js ''@Foo'') = normalize_frame toLowerCase (js ''foo'')"
    by (simp add: eval_defs)
  then have "generateMetrics_frame toLowerCase (js ''@Foo'') =
      generateMetrics_frame toLowerCase (js ''foo'')"
    by (rule generateMetrics_frame_cong)
  then show ?thesis
    using normalize_app_idem [of s] normalize_frame_idem [of lc s] by blast
qed

theorem normalize_idempotent_amended_witness:
  "replace_leading_at (normalize_app (js ''@Foo'')) = normalize_app (js ''@Foo'') \<and>
   dropWhile isWhiteSpace (normalize_app (js ''@Foo'')) = normalize_app (js ''@Foo'') \<and>
   normalize_app (normalize_app (js ''@Foo'')) = normalize_app (js ''@Foo'') \<and>
   toLowerCase (normalize_frame toLowerCase (js ''@Foo'')) = normalize_frame toLowerCase (js ''@Foo'') \<and>
   replace_leading_at (normalize_frame toLowerCase (js ''@Foo'')) =
     normalize_frame toLowerCase (js ''@Foo'') \<and>
   normalize_frame toLowerCase (normalize_frame toLowerCase (js ''@Foo'')) =
     normalize_frame toLowerCase (js ''@Foo'')"
proof -
  have a: "replace_leading_at (normalize_app (js ''@Foo'')) = normalize_app (js ''@Foo'')"
    "dropWhile isWhiteSpace (normalize_app (js ''@Foo'')) = normalize_app (js ''@Foo'')"
    by (simp_all add: eval_defs)
  have f: "toLowerCase (normalize_frame toLowerCase (js ''@Foo'')) =
      normalize_frame toLowerCase (js ''@Foo'')"
    "replace_leading_at (normalize_frame toLowerCase (js ''@Foo'')) =
      normalize_frame toLowerCase (js ''@Foo'')"
    by (simp_all add: eval_defs)
  show ?thesis
    using a f normalize_idempotent_amended [of "js ''@Foo''" toLowerCase] by blast
qed

text \<open>
  Only one \<open>@\<close> is stripped, so normalization is not idempotent at \<open>@@foo\<close>:
  it gives \<open>@foo\<close>, and \<open>foo\<close> when applied again.
\<close>

theorem normalize_idempotent_counterexample:
  "normalize_app (normalize_app (js ''@@foo'')) \<noteq> normalize_app (js ''@@foo'') \<and>
   normalize_frame toLowerCase (normalize_frame toLowerCase (js ''@@foo'')) \<noteq>
     normalize_frame toLowerCase (js ''@@foo'')"
  by (simp add: eval_defs)

text \<open>
  C6. Empty-input fallback: on the empty string and on any string of whitespace only, the
  interactive generator returns what it returns on the literal \<open>maincharacter\<close>, and
  the frame generator what it returns on the literal \<open>anon\<close>. Neither fails, and the
  values are those of the hash of the literal (53, 34, Low and 85, 98, High), not those
  of the hash 0. The lower-casing function is assumed to leave the two literals and, for
  the frame generator, the whitespace string unchanged.
\<close>

theorem empty_input_fallback:
  "list_all isWhiteSpace s \<longrightarrow>
     generateMetrics_app lc s = generateMetrics_app lc maincharacter \<and>
     (lc maincharacter = maincharacter \<longrightarrow>
        generateMetrics_app lc s =
          Inr \<lparr>mainCharacter = 53, npcEnergy = 34, plotArmor = Low,
               caption = Some (js ''Somewhere, a writer is adding you to season two.''),
               fid = 257344,
               avatarUrl = js ''https://api.dicebear.com/9.x/thumbs/svg?seed=maincharacter''\<rparr>) \<and>
     (lc s = s \<and> lc anon = anon \<longrightarrow>
        generateMetrics_frame lc s = generateMetrics_frame lc anon \<and>
        generateMetrics_frame lc s =
          \<lparr>mainCharacter = 85, npcEnergy = 98, plotArmor = Some High\<rparr>)"
proof (intro impI)
  assume ws: "list_all isWhiteSpace s"
  have base: "or_else (normalize_app s) maincharacter =
      or_else (normalize_app maincharacter) maincharacter"
    by (simp add: normalize_app_whitespace [OF ws] normalize_app_maincharacter
        or_else_Nil or_else_same)
  have app: "generateMetrics_app lc s = generateMetrics_app lc maincharacter"
    using base by (rule generateMetrics_app_base)
  have app_value: "generateMetrics_app lc s =
      Inr \<lparr>mainCharacter = 53, npcEnergy = 34, plotArmor = Low,
           caption = Some (js ''Somewhere, a writer is adding you to season two.''),
           fid = 257344,
           avatarUrl = js ''https://api.dicebear.com/9.x/thumbs/svg?seed=maincharacter''\<rparr>"
    if l: "lc maincharacter = maincharacter"
  proof -
    have "generateMetrics_app lc maincharacter = generateMetrics_app toLowerCase maincharacter"
      by (rule generateMetrics_app_lc)
        (simp add: normalize_app_maincharacter or_else_same l toLowerCase_maincharacter)
    then show ?thesis by (simp only: app generateMetrics_app_maincharacter)
  qed
  have frame: "generateMetrics_frame lc s = generateMetrics_frame lc anon \<and>
      generateMetrics_frame lc s = \<lparr>mainCharacter = 85, npcEnergy = 98, plotArmor = Some High\<rparr>"
    if l: "lc s = s \<and> lc anon = anon"
  proof -
    have "replace_leading_at s = s"
    proof (cases s)
      case Nil
      then show ?thesis by (simp add: replace_leading_at_def)
    next
      case (Cons c cs)
      with ws have "isWhiteSpace c" by simp
      moreover have "\<not> isWhiteSpace 0x40" by (simp add: isWhiteSpace_def)
      ultimately have "c \<noteq> 0x40" by blast
      with Cons show ?thesis by (simp add: replace_leading_at_def)
    qed
    then have "normalize_frame lc s = []"
      using l ws by (simp add: normalize_frame_def trim_whitespace_only)
    moreover have "normalize_frame lc anon = anon"
      using l by (simp add: normalize_frame_def normalize_frame_anon)
    ultimately have "or_else (normalize_frame lc s) anon = or_else (normalize_frame lc anon) anon"
      by (simp add: or_else_Nil or_else_same)
    then have e: "generateMetrics_frame lc s = generateMetrics_frame lc anon"
      by (rule generateMetrics_frame_base)
    have "generateMetrics_frame lc anon = generateMetrics_frame toLowerCase anon"
      by (rule generateMetrics_frame_lc) (simp add: l toLowerCase_anon)
    with e show ?thesis by (simp only: generateMetrics_frame_anon)
  qed
  from app app_value frame
  show "generateMetrics_app lc s = generateMetrics_app lc maincharacter \<and>
     (lc maincharacter = maincharacter \<longrightarrow>
        generateMetrics_app lc s =
          Inr \<lparr>mainCharacter = 53, npcEnergy = 34, plotArmor = Low,
               caption = Some (js ''Somewhere, a writer is adding you to season two.''),
               fid = 257344,
               avatarUrl = js ''https://api.dicebear.com/9.x/thumbs/svg?seed=maincharacter''\<rparr>) \<and>
     (lc s = s \<and> lc anon = anon \<longrightarrow>
        generateMetrics_frame lc s = generateMetrics_frame lc anon \<and>
        generateMetrics_frame lc s =
          \<lparr>mainCharacter = 85, npcEnergy = 98, plotArmor = Some High\<rparr>)"
    by blast
qed

theorem empty_input_fallback_witness:
  "list_all isWhiteSpace [0x20, 0x9] \<and>
   toLowerCase maincharacter = maincharacter \<and>
   toLowerCase [0x20, 0x9] = [0x20, 0x9] \<and> toLowerCase anon = anon \<and>
   generateMetrics_app toLowerCase [0x20, 0x9] = generateMetrics_app toLowerCase maincharacter \<and>
   generateMetrics_frame toLowerCase [0x20, 0x9] = generateMetrics_frame toLowerCase anon \<and>
   generateMetrics_frame toLowerCase [0x20, 0x9] =
     \<lparr>mainCharacter = 85, npcEnergy = 98, plotArmor = Some High\<rparr>"
proof -
  have ws: "list_all isWhiteSpace [0x20, 0x9]" by (simp add: isWhiteSpace_def)
  have l: "toLowerCase [0x20, 0x9] = [0x20, 0x9]" by (simp add: toLowerCase_def lowerUnit_def)
  show ?thesis
    using ws l toLowerCase_maincharacter toLowerCase_anon
      empty_input_fallback [of "[0x20, 0x9]" toLowerCase]
    by blast
qed

text \<open>
  C7. For every string, the hash of the frame responder is the absolute value of the
  hash of the interactive app read as a signed 32-bit integer, and after every prefix of
  the string the two accumulators are equal modulo \<open>2^32\<close>.
\<close>

theorem hash_variants_equivalent:
  "hashHandle_frame s = \<bar>ToInt32 (hashHandle_app s)\<bar> \<and>
   (\<forall>n. hash_loop_frame 0 (take n s) mod 2 ^ 32 = hashHandle_app (take n s))"
proof -
  have "hash_loop_frame 0 (take n s) mod 2 ^ 32 = hashHandle_app (take n s)" for n
  proof -
    have "ToUint32 (hash_loop_app 0 (take n s)) = hash_loop_app 0 (take n s)"
      by (rule hash_loop_app_uint32) (simp add: ToUint32_def)
    moreover have "hash_loop_frame 0 (take n s) mod 2 ^ 32 = hash_loop_app 0 (take n s) mod 2 ^ 32"
      by (rule hash_loops_agree) simp
    ultimately show ?thesis by (simp add: hashHandle_app_def ToUint32_def)
  qed
  then show ?thesis by (simp add: hashHandle_frame_def hash_loop_frame_eq)
qed

text \<open>
  C8. The frame responder answers a GET request with status 200 and a document whose
  description is the default subtitle. It answers a POST request whose body is
  \<open>{untrustedData: {inputText: "alice"}}\<close> with status 200 and a document whose
  description is the text \<open>@alice: MC 62 \<cdot> NPC 67 \<cdot> Armor Low\<close>; 62, 67 and Low are
  the \<open>mainCharacter\<close>, \<open>npcEnergy\<close> and \<open>plotArmor\<close> of the frame generator called on
  \<open>alice\<close>.
\<close>

theorem frame_responder_output:
  \<open>status (frame_handler toLowerCase \<lparr>http_method = js ''GET'', json_body = b\<rparr>) = 200 \<and>
   (\<exists>pre post.
      body (frame_handler toLowerCase \<lparr>http_method = js ''GET'', json_body = b\<rparr>) =
        Some (pre @
          (js ''<meta property="og:description" content="'' @
           js ''Drop your handle to scan your Main Character Energy'' @ js ''" />'') @ post)) \<and>
   status (frame_handler toLowerCase
     \<lparr>http_method = js ''POST'',
      json_body = Some (JObject [(js ''untrustedData'',
        JObject [(js ''inputText'', JString (js ''alice''))])])\<rparr>) = 200 \<and>
   (\<exists>pre post.
      body (frame_handler toLowerCase
        \<lparr>http_method = js ''POST'',
         json_body = Some (JObject [(js ''untrustedData'',
           JObject [(js ''inputText'', JString (js ''alice''))])])\<rparr>) =
        Some (pre @
          (js ''<meta property="og:description" content="'' @
           (js ''@alice: MC 62 '' @ [0xB7] @ js '' NPC 67 '' @ [0xB7] @ js '' Armor Low'') @
           js ''" />'') @ post)) \<and>
   generateMetrics_frame toLowerCase (js ''alice'') =
     \<lparr>mainCharacter = 62, npcEnergy = 67, plotArmor = Some Low\<rparr>\<close>
proof -
  obtain pre post where get:
    \<open>buildFrameHtml toLowerCase \<lparr>handle = [], imageUrl = frame_imageUrl, appUrl = frame_appUrl\<rparr> =
       pre @ (js ''<meta property="og:description" content="'' @
         js ''Drop your handle to scan your Main Character Energy'' @ js ''" />'') @ post\<close>
    using buildFrameHtml_description
      [of toLowerCase "\<lparr>handle = [], imageUrl = frame_imageUrl, appUrl = frame_appUrl\<rparr>"]
    by (auto simp add: normalize_frame_empty subtitle_empty)
  obtain pre' post' where post:
    \<open>buildFrameHtml toLowerCase
        \<lparr>handle = js ''alice'', imageUrl = frame_imageUrl, appUrl = frame_appUrl\<rparr> =
       pre' @ (js ''<meta property="og:description" content="'' @
         subtitle toLowerCase (js ''alice'') @ js ''" />'') @ post'\<close>
    using buildFrameHtml_description
      [of toLowerCase "\<lparr>handle = js ''alice'', imageUrl = frame_imageUrl, appUrl = frame_appUrl\<rparr>"]
    by (auto simp add: normalize_frame_alice)
  show ?thesis
    unfolding frame_handler_GET frame_handler_POST_alice
    apply (intro conjI)
        apply (simp add: htmlResponse_def)
       apply (rule exI [of _ pre], rule exI [of _ post])
       apply (simp only: get htmlResponse_def Response.simps)
      apply (simp add: htmlResponse_def)
     apply (rule exI [of _ pre'], rule exI [of _ post'])
     apply (simp only: post htmlResponse_def Response.simps subtitle_alice_text)
    apply (rule generateMetrics_frame_alice)
    done
qed

theorem frame_responder_output_witness:
  "status (frame_handler toLowerCase \<lparr>http_method = js ''GET'', json_body = None\<rparr>) = 200 \<and>
   status (frame_handler toLowerCase
     \<lparr>http_method = js ''POST'',
      json_body = Some (JObject [(js ''untrustedData'',
        JObject [(js ''inputText'', JString (js ''alice''))])])\<rparr>) = 200"
  using frame_responder_output [of None] by blast

text \<open>
  C9 (as amended). The proxy reads the user name before the credential. Of a request
  other than OPTIONS: a body that does not parse, and the body \<open>null\<close>, are answered 500
  with the message of the caught error; every other body is answered 400 with
  \<open>Username is required\<close> when its \<open>username\<close> is missing or falsy, whatever the
  credential, and 500 with \<open>API key not configured\<close> when its \<open>username\<close> is truthy
  and the credential is not set or empty.
\<close>

theorem proxy_guards_order:
  "(http_method req \<noteq> js ''OPTIONS'' \<and> json_body req = Some parsed \<and>
    js_get parsed (js ''username'') = Inr username \<longrightarrow>
      (\<not> truthy username \<longrightarrow>
         proxy_handler lookup env req = jsonError 400 (Literal (js ''Username is required''))) \<and>
      (truthy username \<and> (env = None \<or> env = Some []) \<longrightarrow>
         proxy_handler lookup env req = jsonError 500 (Literal (js ''API key not configured'')))) \<and>
   (http_method req \<noteq> js ''OPTIONS'' \<and> (json_body req = None \<or> json_body req = Some JNull) \<longrightarrow>
      proxy_handler lookup env req = jsonError 500 CaughtMessage) \<and>
   ((\<exists>u. js_get parsed (js ''username'') = Inr u) \<or> parsed = JNull)"
  using proxy_handler_parsed [of req parsed username lookup env]
    proxy_handler_rejected [of req lookup env] proxy_handler_null [of req lookup env]
    js_get_cases [of parsed "js ''username''"]
  by auto

theorem proxy_guards_order_witness:
  "http_method \<lparr>http_method = js ''POST'',
       json_body = Some (JObject [(js ''username'', JString (js ''alice''))])\<rparr> \<noteq> js ''OPTIONS'' \<and>
   js_get (JObject [(js ''username'', JString (js ''alice''))]) (js ''username'') =
     Inr (Some (JString (js ''alice''))) \<and>
   truthy (Some (JString (js ''alice''))) \<and>
   proxy_handler lookup_no_user None
     \<lparr>http_method = js ''POST'',
      json_body = Some (JObject [(js ''username'', JString (js ''alice''))])\<rparr> =
     jsonError 500 (Literal (js ''API key not configured'')) \<and>
   js_get (JObject []) (js ''username'') = Inr None \<and>
   proxy_handler lookup_no_user (Some (js ''key''))
     \<lparr>http_method = js ''POST'', json_body = Some (JObject [])\<rparr> =
     jsonError 400 (Literal (js ''Username is required'')) \<and>
   proxy_handler lookup_no_user None \<lparr>http_method = js ''POST'', json_body = None\<rparr> =
     jsonError 500 CaughtMessage \<and>
   proxy_handler lookup_no_user None \<lparr>http_method = js ''POST'', json_body = Some JNull\<rparr> =
     jsonError 500 CaughtMessage"
proof -
  have m: "js ''POST'' \<noteq> js ''OPTIONS''" by (simp add: js_def)
  have g: "js_get (JObject [(js ''username'', JString (js ''alice''))]) (js ''username'') =
      Inr (Some (JString (js ''alice'')))"
    by simp
  have t: "truthy (Some (JString (js ''alice'')))" by (simp add: js_def)
  have g': "js_get (JObject []) (js ''username'') = Inr None" by simp
  have t': "\<not> truthy None" by simp
  show ?thesis
    using m g t g' t'
      proxy_guards_order [of "\<lparr>http_method = js ''POST'',
        json_body = Some (JObject [(js ''username'', JString (js ''alice''))])\<rparr>"
        "JObject [(js ''username'', JString (js ''alice''))]" "Some (JString (js ''alice''))"
        lookup_no_user None]
      proxy_guards_order [of "\<lparr>http_method = js ''POST'', json_body = Some (JObject [])\<rparr>"
        "JObject []" None lookup_no_user "Some (js ''key'')"]
      proxy_guards_order [of "\<lparr>http_method = js ''POST'', json_body = None\<rparr>"
        JNull None lookup_no_user None]
      proxy_guards_order [of "\<lparr>http_method = js ''POST'', json_body = Some JNull\<rparr>"
        JNull None lookup_no_user None]
    by simp
qed

text \<open>
  With no credential set, a POST with an empty or a missing \<open>username\<close> is answered
  400, not 500.
\<close>

theorem proxy_config_counterexample:
  "status (proxy_handler lookup_no_user None
     \<lparr>http_method = js ''POST'', json_body = Some (JObject [(js ''username'', JString [])])\<rparr>) = 400 \<and>
   body (proxy_handler lookup_no_user None
     \<lparr>http_method = js ''POST'', json_body = Some (JObject [(js ''username'', JString [])])\<rparr>) =
     ErrorBody (Literal (js ''Username is required'')) \<and>
   status (proxy_handler lookup_no_user None
     \<lparr>http_method = js ''POST'', json_body = Some (JObject [])\<rparr>) = 400"
proof -
  have m: "js ''POST'' \<noteq> js ''OPTIONS''" by (simp add: js_def)
  show ?thesis using m by (simp add: proxy_handler_def jsonError_def)
qed

text \<open>
  C10. For every string, the hash of the frame responder is a nonnegative integer not
  above \<open>2^31\<close>, and its remainders by 51, 41 and 3 (as \<open>%\<close> computes them) are
  nonnegative.
\<close>

theorem hashHandle_frame_nonneg:
  "0 \<le> hashHandle_frame s \<and> hashHandle_frame s \<le> 2 ^ 31 \<and>
   0 \<le> js_rem (hashHandle_frame s) 51 \<and>
   0 \<le> js_rem (hashHandle_frame s) 41 \<and>
   0 \<le> js_rem (hashHandle_frame s) 3"
  using hashHandle_frame_range [of s] by (simp add: js_rem_nonneg)

end
